theory Spec2Isabelle
  imports Main "HOL-Library.Word"
begin

text \<open>
  A model of the package \<open>log\<close> (\<open>log.go\<close>): a facade over the zap logger with file
  rotation by size (lumberjack) or by date (file-rotatelogs). The package's own code is
  modelled function by function; of the libraries, only what the package hands to them
  and what the package's control flow depends on.
\<close>

section \<open>Machine integers and durations\<close>

text \<open>
  Go's \<open>int\<close> and \<open>uint\<close> are taken at their 64-bit width (amd64, arm64); \<open>time.Duration\<close>
  is an \<open>int64\<close> count of nanoseconds. All three are 64-bit words: arithmetic wraps, \<open>sint\<close>
  is the signed reading and \<open>unat\<close> the unsigned one. The conversions \<open>uint(x)\<close> and
  \<open>int(x)\<close> keep the bit pattern.
\<close>

type_synonym go_int = "64 word"
type_synonym go_uint = "64 word"
type_synonym Duration = "64 word"

definition to_uint :: "go_int \<Rightarrow> go_uint" where
  "to_uint x = ucast x"

definition to_int :: "go_uint \<Rightarrow> go_int" where
  "to_int x = ucast x"

definition to_Duration :: "go_int \<Rightarrow> Duration" where
  "to_Duration x = scast x"

definition Nanosecond :: Duration where
  "Nanosecond = 1"

definition Hour :: Duration where
  "Hour = 60 * (60 * (1000 * (1000 * (1000 * Nanosecond))))"

section \<open>File names\<close>

text \<open>
  \<open>filepath.Ext\<close> walks the path backwards from its last byte and stops at the first path
  separator (\<open>/\<close>, the separator of Unix targets); at a dot it returns the path from that
  dot on. \<open>Ext_from path n\<close> is the loop with \<open>i = n - 1\<close>.
\<close>

definition IsPathSeparator :: "char \<Rightarrow> bool" where
  "IsPathSeparator c = (c = CHR ''/'')"

primrec Ext_from :: "string \<Rightarrow> nat \<Rightarrow> string" where
  "Ext_from path 0 = []"
| "Ext_from path (Suc i) =
     (if IsPathSeparator (path ! i) then []
      else if path ! i = CHR ''.'' then drop i path
      else Ext_from path i)"

definition Ext :: "string \<Rightarrow> string" where
  "Ext path = Ext_from path (length path)"

definition HasSuffix :: "string \<Rightarrow> string \<Rightarrow> bool" where
  "HasSuffix s suf = (length suf \<le> length s \<and> drop (length s - length suf) s = suf)"

definition TrimSuffix :: "string \<Rightarrow> string \<Rightarrow> string" where
  "TrimSuffix s suf = (if HasSuffix s suf then take (length s - length suf) s else s)"

section \<open>Date-based rotation setup\<close>

definition dateRollingSuffix :: string where
  "dateRollingSuffix = ''.%Y%m%d''"

definition RollingBySize :: go_int where
  "RollingBySize = 0"

definition RollingByDate :: go_int where
  "RollingByDate = 1"

datatype rotatelogs_Option =
    WithLinkName string
  | WithRotationTime Duration
  | WithMaxAge Duration
  | WithRotationCount go_uint

text \<open>
  The writer that \<open>rotatelogs.New\<close> hands back is kept as what it was built from: the
  file-name pattern and the options.
\<close>

record RotateLogs_writer =
  pattern :: string
  options :: "rotatelogs_Option list"

text \<open>
  \<open>rotatelogs.New\<close> belongs to a library outside the repository. Which arguments it
  refuses is a parameter \<open>reject\<close>: the error it returns for a pattern and options, or
  \<open>None\<close> when it builds the writer.
\<close>

type_synonym New_reject = "string \<Rightarrow> rotatelogs_Option list \<Rightarrow> string option"

definition rotatelogs_New ::
  "New_reject \<Rightarrow> string \<Rightarrow> rotatelogs_Option list \<Rightarrow> string + RotateLogs_writer" where
  "rotatelogs_New reject p opts =
     (case reject p opts of
        Some err \<Rightarrow> Inl err
      | None \<Rightarrow> Inr \<lparr>pattern = p, options = opts\<rparr>)"

definition RotateLogs_filename :: "string \<Rightarrow> string" where
  "RotateLogs_filename filePath =
     (let ext = Ext filePath in
      if length ext > 0 then TrimSuffix filePath ext @ dateRollingSuffix @ ext
      else filePath @ dateRollingSuffix)"

definition RotateLogs_options :: "string \<Rightarrow> go_uint \<Rightarrow> go_int \<Rightarrow> rotatelogs_Option list" where
  "RotateLogs_options filePath maxBackups maxAge =
     (let opts = [WithLinkName filePath, WithRotationTime (Hour * 24)] in
      if sint maxAge < sint (to_int maxBackups)
      then opts @ [WithMaxAge (Hour * 24 * to_Duration maxAge)]
      else opts @ [WithRotationCount maxBackups])"

definition RotateLogs ::
  "New_reject \<Rightarrow> string \<Rightarrow> go_uint \<Rightarrow> go_int \<Rightarrow> string + RotateLogs_writer" where
  "RotateLogs reject filePath maxBackups maxAge =
     rotatelogs_New reject (RotateLogs_filename filePath)
       (RotateLogs_options filePath maxBackups maxAge)"

section \<open>Levels and level parsing\<close>

text \<open>
  Modelled from the spec: \<open>zapcore.Level\<close> is declared in the zap library; the spec lists
  its seven members. \<open>Level_value\<close> is their order, lowest first.
\<close>

datatype Level =
  DebugLevel | InfoLevel | WarnLevel | ErrorLevel | DPanicLevel | PanicLevel | FatalLevel

fun Level_value :: "Level \<Rightarrow> int" where
  "Level_value DebugLevel = - 1"
| "Level_value InfoLevel = 0"
| "Level_value WarnLevel = 1"
| "Level_value ErrorLevel = 2"
| "Level_value DPanicLevel = 3"
| "Level_value PanicLevel = 4"
| "Level_value FatalLevel = 5"

text \<open>
  \<open>strings.ToUpper\<close> on a string of ASCII bytes maps \<open>a\<close>..\<open>z\<close> to \<open>A\<close>..\<open>Z\<close> byte by byte.
  On any other string it maps every rune through the Unicode tables; that mapping is the
  parameter \<open>unicode_upper\<close>.
\<close>

definition RuneSelf :: nat where
  "RuneSelf = 128"

definition is_lower_ascii :: "char \<Rightarrow> bool" where
  "is_lower_ascii c = ((of_char (CHR ''a'') :: nat) \<le> of_char c \<and> (of_char c :: nat) \<le> of_char (CHR ''z''))"

definition upper_ascii :: "char \<Rightarrow> char" where
  "upper_ascii c =
     (if is_lower_ascii c
      then char_of ((of_char c :: nat) - (of_char (CHR ''a'') - of_char (CHR ''A'')))
      else c)"

definition ToUpper :: "(string \<Rightarrow> string) \<Rightarrow> string \<Rightarrow> string" where
  "ToUpper unicode_upper s =
     (if list_all (\<lambda>c. (of_char c :: nat) < RuneSelf) s
      then (if list_ex is_lower_ascii s then map upper_ascii s else s)
      else unicode_upper s)"

text \<open>
  \<open>logLv\<close> returns the level together with what it printed on standard output.
\<close>

definition logLv :: "(string \<Rightarrow> string) \<Rightarrow> string \<Rightarrow> Level \<times> string list" where
  "logLv unicode_upper logLevel =
     (let u = ToUpper unicode_upper logLevel in
      if u = ''DEBUG'' then (DebugLevel, [])
      else if u = ''INFO'' \<or> u = [] then (InfoLevel, [])
      else if u = ''WARN'' then (WarnLevel, [])
      else if u = ''ERROR'' then (ErrorLevel, [])
      else if u = ''DPANIC'' then (DPanicLevel, [])
      else if u = ''PANIC'' then (PanicLevel, [])
      else if u = ''FATAL'' then (FatalLevel, [])
      else (InfoLevel, [''invalid log level '' @ logLevel @ '', change to INFO'' @ [CHR 0x0A]]))"

section \<open>Cores and loggers\<close>

datatype TimeEncoder = EpochTimeEncoder | ISO8601TimeEncoder | timeEncoder

datatype LevelEncoder = LowercaseLevelEncoder | CapitalLevelEncoder

datatype EncoderKeys = ProductionKeys | DevelopmentKeys

record EncoderConfig =
  keys :: EncoderKeys
  EncodeTime :: TimeEncoder
  EncodeLevel :: LevelEncoder

definition NewProductionEncoderConfig :: EncoderConfig where
  "NewProductionEncoderConfig =
     \<lparr>keys = ProductionKeys, EncodeTime = EpochTimeEncoder, EncodeLevel = LowercaseLevelEncoder\<rparr>"

definition NewDevelopmentEncoderConfig :: EncoderConfig where
  "NewDevelopmentEncoderConfig =
     \<lparr>keys = DevelopmentKeys, EncodeTime = ISO8601TimeEncoder, EncodeLevel = CapitalLevelEncoder\<rparr>"

record lumberjack_Logger =
  Filename :: string
  MaxSize :: go_int
  LocalTime :: bool
  MaxBackups :: go_int
  MaxAge :: go_int
  Compress :: bool

datatype WriteSyncer =
    RotateLogsSyncer RotateLogs_writer
  | LumberjackSyncer lumberjack_Logger
  | Stdout

text \<open>A core is \<open>zapcore.NewCore (zapcore.NewConsoleEncoder cfg) ws level\<close>.\<close>

record Core =
  encoder :: EncoderConfig
  syncer :: WriteSyncer
  enab :: Level

definition NewCore :: "EncoderConfig \<Rightarrow> WriteSyncer \<Rightarrow> Level \<Rightarrow> Core" where
  "NewCore cfg ws level = \<lparr>encoder = cfg, syncer = ws, enab = level\<rparr>"

text \<open>
  A logger is the tee of its cores with the caller options it was built with. \<open>ident\<close>
  tells one constructed logger from another: it is the number of loggers built before it.
\<close>

record zap_Logger =
  ident :: nat
  cores :: "Core list"
  addCaller :: bool
  callerSkip :: nat

record SugaredLogger =
  base :: zap_Logger

definition logCore :: "WriteSyncer \<Rightarrow> Level \<Rightarrow> Core list \<Rightarrow> Core list" where
  "logCore fileWriterSyncer level cs =
     (let fileEncoderConfig = NewProductionEncoderConfig
            \<lparr>EncodeTime := timeEncoder, EncodeLevel := CapitalLevelEncoder\<rparr>;
          c = NewCore fileEncoderConfig fileWriterSyncer level
      in cs @ [c])"

definition devCore :: "bool list \<Rightarrow> Level \<Rightarrow> Core list \<Rightarrow> Core list" where
  "devCore stdout level cs =
     (if length stdout > 0 \<and> stdout ! 0 then
        (let developmentEncoderConfig = NewDevelopmentEncoderConfig
               \<lparr>EncodeTime := timeEncoder, EncodeLevel := CapitalLevelEncoder\<rparr>;
             c = NewCore developmentEncoderConfig Stdout level
         in cs @ [c])
      else cs)"

section \<open>The package state\<close>

text \<open>
  The package variables \<open>Logger\<close>, \<open>Sugar\<close> (\<open>None\<close> is the nil pointer) and \<open>once\<close> (its
  done flag), together with the part of the process they act on: the number of loggers
  built so far, the environment, the text printed with \<open>fmt.Printf\<close>, and the entries that
  cores have written, oldest first. A log message is kept unformatted, as the call that
  made it: \<open>Sprint args\<close> or \<open>Sprintf template args\<close>.
\<close>

datatype 'v message = Sprint "'v list" | Sprintf string "'v list"

record 'v state =
  Logger :: "zap_Logger option"
  Sugar :: "SugaredLogger option"
  once_done :: bool
  allocated :: nat
  environ :: "string \<Rightarrow> string option"
  printed :: "string list"
  written :: "(Core \<times> Level \<times> 'v message) list"

definition initial :: "(string \<Rightarrow> string option) \<Rightarrow> 'v state" where
  "initial env =
     \<lparr>Logger = None, Sugar = None, once_done = False, allocated = 0, environ = env,
      printed = [], written = []\<rparr>"

text \<open>
  A call returns, panics with a value (a deferred \<open>recover\<close> of a caller can stop a panic),
  or exits the process (\<open>os.Exit\<close>, which nothing can stop). Each carries the state reached.
\<close>

datatype panic_value = SetupError string | NilPointerDereference

datatype 'v outcome =
    Return "'v state"
  | Panic panic_value "'v state"
  | Exit "'v state"

fun state_of :: "'v outcome \<Rightarrow> 'v state" where
  "state_of (Return s) = s"
| "state_of (Panic e s) = s"
| "state_of (Exit s) = s"

text \<open>
  \<open>zap.New core (zap.AddCaller ()) (zap.AddCallerSkip skip)\<close> followed by the two
  assignments \<open>Logger = ...\<close> and \<open>Sugar = Logger.Sugar ()\<close>. The sugared logger wraps a
  copy of the logger that skips two more callers.
\<close>

definition zap_New :: "Core list \<Rightarrow> nat \<Rightarrow> 'v state \<Rightarrow> zap_Logger" where
  "zap_New cs skip s = \<lparr>ident = allocated s, cores = cs, addCaller = True, callerSkip = skip\<rparr>"

definition Sugar_of :: "zap_Logger \<Rightarrow> SugaredLogger" where
  "Sugar_of l = \<lparr>base = l\<lparr>callerSkip := callerSkip l + 2\<rparr>\<rparr>"

definition set_Logger :: "Core list \<Rightarrow> 'v state \<Rightarrow> 'v state" where
  "set_Logger cs s =
     (let l = zap_New cs 1 s in
      s\<lparr>Logger := Some l, Sugar := Some (Sugar_of l), allocated := Suc (allocated s)\<rparr>)"

section \<open>Setup\<close>

definition DateRolling ::
  "New_reject \<Rightarrow> (string \<Rightarrow> string) \<Rightarrow> string \<Rightarrow> string \<Rightarrow> go_int \<Rightarrow> go_int \<Rightarrow> bool list \<Rightarrow>
   'v state \<Rightarrow> 'v outcome" where
  "DateRolling reject unicode_upper filename logLevel maxBackups maxAge stdout s =
     (case RotateLogs reject filename (to_uint maxBackups) maxAge of
        Inl err \<Rightarrow> Panic (SetupError err) s
      | Inr rotateLogs \<Rightarrow>
          (let (level, out) = logLv unicode_upper logLevel;
               s1 = s\<lparr>printed := printed s @ out\<rparr>;
               cs = [];
               fileWriterSyncer = RotateLogsSyncer rotateLogs;
               cs = logCore fileWriterSyncer level cs;
               cs = devCore stdout level cs
           in Return (set_Logger cs s1)))"

definition SizeRolling ::
  "(string \<Rightarrow> string) \<Rightarrow> string \<Rightarrow> string \<Rightarrow> go_int \<Rightarrow> go_int \<Rightarrow> go_int \<Rightarrow> bool list \<Rightarrow>
   'v state \<Rightarrow> 'v outcome" where
  "SizeRolling unicode_upper filename logLevel maxSize maxBackups maxAge stdout s =
     (let (level, out) = logLv unicode_upper logLevel;
          s1 = s\<lparr>printed := printed s @ out\<rparr>;
          cs = [];
          fileWriterSyncer = LumberjackSyncer
            \<lparr>Filename = filename, MaxSize = maxSize, LocalTime = True,
             MaxBackups = maxBackups, MaxAge = maxAge, Compress = True\<rparr>;
          cs = logCore fileWriterSyncer level cs;
          cs = devCore stdout level cs
      in Return (set_Logger cs s1))"

definition Init ::
  "New_reject \<Rightarrow> (string \<Rightarrow> string) \<Rightarrow> string \<Rightarrow> string \<Rightarrow> go_int \<Rightarrow> go_int \<Rightarrow> go_int \<Rightarrow>
   go_int \<Rightarrow> bool list \<Rightarrow> 'v state \<Rightarrow> 'v outcome" where
  "Init reject unicode_upper filename logLevel maxSize maxBackups maxAge rollingBy stdout s =
     (if rollingBy = RollingBySize
      then SizeRolling unicode_upper filename logLevel maxSize maxBackups maxAge stdout s
      else if rollingBy = RollingByDate
      then DateRolling reject unicode_upper filename logLevel maxBackups maxAge stdout s
      else Return s)"

definition Getenv :: "(string \<Rightarrow> string option) \<Rightarrow> string \<Rightarrow> string" where
  "Getenv env key = (case env key of None \<Rightarrow> [] | Some v \<Rightarrow> v)"

text \<open>\<open>Default_body\<close> is the function given to \<open>once.Do\<close>.\<close>

definition Default_body :: "'v state \<Rightarrow> 'v state" where
  "Default_body s =
     (let developmentEncoderConfig = NewDevelopmentEncoderConfig
            \<lparr>EncodeTime := timeEncoder, EncodeLevel := CapitalLevelEncoder\<rparr>;
          logLevel = InfoLevel;
          debugEnabled = Getenv (environ s) ''DEBUG'';
          logLevel = (if length debugEnabled > 0 then DebugLevel else logLevel);
          c = NewCore developmentEncoderConfig Stdout logLevel
      in set_Logger [c] s)"

definition Default :: "'v state \<Rightarrow> 'v state" where
  "Default s = (if once_done s then s else (Default_body s)\<lparr>once_done := True\<rparr>)"

section \<open>Logging\<close>

text \<open>
  Modelled from the spec: the methods of zap's sugared logger that the package calls, at
  the levels Debug, Info, Warn, Error and Fatal. An entry at a level goes to every core of
  the logger whose own level is not above it, in order; a Fatal entry then exits the
  process. Calling a method through the nil pointer is a run-time panic.
\<close>

definition Enabled :: "Core \<Rightarrow> Level \<Rightarrow> bool" where
  "Enabled c lvl = (Level_value (enab c) \<le> Level_value lvl)"

definition Sugar_log :: "Level \<Rightarrow> 'v message \<Rightarrow> 'v state \<Rightarrow> 'v outcome" where
  "Sugar_log lvl msg s =
     (case Sugar s of
        None \<Rightarrow> Panic NilPointerDereference s
      | Some sg \<Rightarrow>
          (let s1 = s\<lparr>written := written s @
                        map (\<lambda>c. (c, lvl, msg)) (filter (\<lambda>c. Enabled c lvl) (cores (base sg)))\<rparr>
           in if lvl = FatalLevel then Exit s1 else Return s1))"

definition Info :: "'v list \<Rightarrow> 'v state \<Rightarrow> 'v outcome" where
  "Info args s = Sugar_log InfoLevel (Sprint args) (if Sugar s = None then Default s else s)"

definition Infof :: "string \<Rightarrow> 'v list \<Rightarrow> 'v state \<Rightarrow> 'v outcome" where
  "Infof template args s =
     Sugar_log InfoLevel (Sprintf template args) (if Sugar s = None then Default s else s)"

definition Debug :: "'v list \<Rightarrow> 'v state \<Rightarrow> 'v outcome" where
  "Debug args s = Sugar_log DebugLevel (Sprint args) (if Sugar s = None then Default s else s)"

definition Debugf :: "string \<Rightarrow> 'v list \<Rightarrow> 'v state \<Rightarrow> 'v outcome" where
  "Debugf template args s =
     Sugar_log DebugLevel (Sprintf template args) (if Sugar s = None then Default s else s)"

definition Warn :: "'v list \<Rightarrow> 'v state \<Rightarrow> 'v outcome" where
  "Warn args s = Sugar_log WarnLevel (Sprint args) (if Sugar s = None then Default s else s)"

definition Warnf :: "string \<Rightarrow> 'v list \<Rightarrow> 'v state \<Rightarrow> 'v outcome" where
  "Warnf template args s =
     Sugar_log WarnLevel (Sprintf template args) (if Sugar s = None then Default s else s)"

definition Error :: "'v list \<Rightarrow> 'v state \<Rightarrow> 'v outcome" where
  "Error args s = Sugar_log ErrorLevel (Sprint args) (if Sugar s = None then Default s else s)"

definition Errorf :: "string \<Rightarrow> 'v list \<Rightarrow> 'v state \<Rightarrow> 'v outcome" where
  "Errorf template args s =
     Sugar_log ErrorLevel (Sprintf template args) (if Sugar s = None then Default s else s)"

definition Fatal :: "'v list \<Rightarrow> 'v state \<Rightarrow> 'v outcome" where
  "Fatal args s = Sugar_log FatalLevel (Sprint args) (if Sugar s = None then Default s else s)"

definition Fatalf :: "string \<Rightarrow> 'v list \<Rightarrow> 'v state \<Rightarrow> 'v outcome" where
  "Fatalf template args s =
     Sugar_log FatalLevel (Sprintf template args) (if Sugar s = None then Default s else s)"

section \<open>Programs over the package\<close>

text \<open>
  A caller is a sequence of calls of the exported functions; it stops at the first call
  that panics or exits.
\<close>

datatype 'v call =
    CallInit string string go_int go_int go_int go_int "bool list"
  | CallDateRolling string string go_int go_int "bool list"
  | CallSizeRolling string string go_int go_int go_int "bool list"
  | CallDefault
  | CallInfo "'v list"
  | CallInfof string "'v list"
  | CallDebug "'v list"
  | CallDebugf string "'v list"
  | CallWarn "'v list"
  | CallWarnf string "'v list"
  | CallError "'v list"
  | CallErrorf string "'v list"
  | CallFatal "'v list"
  | CallFatalf string "'v list"

fun exec :: "New_reject \<Rightarrow> (string \<Rightarrow> string) \<Rightarrow> 'v call \<Rightarrow> 'v state \<Rightarrow> 'v outcome" where
  "exec r u (CallInit f l ms mb ma rb so) s = Init r u f l ms mb ma rb so s"
| "exec r u (CallDateRolling f l mb ma so) s = DateRolling r u f l mb ma so s"
| "exec r u (CallSizeRolling f l ms mb ma so) s = SizeRolling u f l ms mb ma so s"
| "exec r u CallDefault s = Return (Default s)"
| "exec r u (CallInfo args) s = Info args s"
| "exec r u (CallInfof t args) s = Infof t args s"
| "exec r u (CallDebug args) s = Debug args s"
| "exec r u (CallDebugf t args) s = Debugf t args s"
| "exec r u (CallWarn args) s = Warn args s"
| "exec r u (CallWarnf t args) s = Warnf t args s"
| "exec r u (CallError args) s = Error args s"
| "exec r u (CallErrorf t args) s = Errorf t args s"
| "exec r u (CallFatal args) s = Fatal args s"
| "exec r u (CallFatalf t args) s = Fatalf t args s"

fun run :: "New_reject \<Rightarrow> (string \<Rightarrow> string) \<Rightarrow> 'v call list \<Rightarrow> 'v state \<Rightarrow> 'v outcome" where
  "run r u [] s = Return s"
| "run r u (c # cs) s =
     (case exec r u c s of
        Return s1 \<Rightarrow> run r u cs s1
      | Panic e s1 \<Rightarrow> Panic e s1
      | Exit s1 \<Rightarrow> Exit s1)"

text \<open>
  A caller that runs \<open>f\<close> under a deferred \<open>recover ()\<close>: a panic of \<open>f\<close> stops there and
  the caller returns the recovered value; an exit is not stopped.
\<close>

fun with_recover :: "('v state \<Rightarrow> 'v outcome) \<Rightarrow> 'v state \<Rightarrow> panic_value option \<times> 'v outcome" where
  "with_recover f s =
     (case f s of
        Return s1 \<Rightarrow> (None, Return s1)
      | Panic e s1 \<Rightarrow> (Some e, Return s1)
      | Exit s1 \<Rightarrow> (None, Exit s1))"

text \<open>The entry points that log, with the level and message each one hands to the logger.\<close>

fun log_entry :: "'v call \<Rightarrow> (Level \<times> 'v message) option" where
  "log_entry (CallInfo args) = Some (InfoLevel, Sprint args)"
| "log_entry (CallInfof t args) = Some (InfoLevel, Sprintf t args)"
| "log_entry (CallDebug args) = Some (DebugLevel, Sprint args)"
| "log_entry (CallDebugf t args) = Some (DebugLevel, Sprintf t args)"
| "log_entry (CallWarn args) = Some (WarnLevel, Sprint args)"
| "log_entry (CallWarnf t args) = Some (WarnLevel, Sprintf t args)"
| "log_entry (CallError args) = Some (ErrorLevel, Sprint args)"
| "log_entry (CallErrorf t args) = Some (ErrorLevel, Sprintf t args)"
| "log_entry (CallFatal args) = Some (FatalLevel, Sprint args)"
| "log_entry (CallFatalf t args) = Some (FatalLevel, Sprintf t args)"
| "log_entry _ = None"

section \<open>Observations and sample parameters\<close>

text \<open>
  The retention options of the rotating file writers of the current logger, and sample
  values for the parameters: a \<open>rotatelogs.New\<close> that accepts everything, one that refuses
  a pattern ending in a percent sign, an empty environment and one with \<open>DEBUG=true\<close>.
\<close>

fun is_retention :: "rotatelogs_Option \<Rightarrow> bool" where
  "is_retention (WithMaxAge d) = True"
| "is_retention (WithRotationCount n) = True"
| "is_retention (WithLinkName p) = False"
| "is_retention (WithRotationTime d) = False"

definition file_retention :: "'v state \<Rightarrow> rotatelogs_Option list" where
  "file_retention s =
     (case Logger s of
        None \<Rightarrow> []
      | Some l \<Rightarrow>
          concat (map (\<lambda>c. case syncer c of
                              RotateLogsSyncer w \<Rightarrow> filter is_retention (options w)
                            | LumberjackSyncer j \<Rightarrow> []
                            | Stdout \<Rightarrow> [])
                      (cores l)))"

definition accept_all :: New_reject where
  "accept_all p opts = None"

definition reject_stray_percent :: New_reject where
  "reject_stray_percent p opts =
     (if p \<noteq> [] \<and> last p = CHR ''%'' then Some ''stray % at the end of pattern'' else None)"

definition no_env :: "string \<Rightarrow> string option" where
  "no_env key = None"

definition debug_env :: "string \<Rightarrow> string option" where
  "debug_env key = (if key = ''DEBUG'' then Some ''true'' else None)"

definition nanoseconds_per_day :: int where
  "nanoseconds_per_day = 24 * 60 * 60 * 1000000000"

text \<open>
  The seven level names, strings of ASCII bytes only, and the line that \<open>logLv\<close> prints
  for a level it does not know.
\<close>

definition level_names :: "string list" where
  "level_names = [''DEBUG'', ''INFO'', ''WARN'', ''ERROR'', ''DPANIC'', ''PANIC'', ''FATAL'']"

definition is_ascii :: "string \<Rightarrow> bool" where
  "is_ascii s = list_all (\<lambda>c. (of_char c :: nat) < RuneSelf) s"

definition invalid_level_warning :: "string \<Rightarrow> string" where
  "invalid_level_warning logLevel = ''invalid log level '' @ logLevel @ '', change to INFO'' @ [CHR 0x0A]"

text \<open>
  The sinks of a logger with their minimum levels, and the two states of the package:
  ACTIVE when both package variables hold a logger, UNINITIALIZED otherwise.
\<close>

definition sinks :: "zap_Logger \<Rightarrow> (WriteSyncer \<times> Level) list" where
  "sinks l = map (\<lambda>c. (syncer c, enab c)) (cores l)"

definition ACTIVE :: "'v state \<Rightarrow> bool" where
  "ACTIVE s = (Logger s \<noteq> None \<and> Sugar s \<noteq> None)"

text \<open>
  The calls that set a logger up explicitly, the states in which a finished \<open>once\<close>
  implies a logger, and the states a process is in before any explicit setup: either
  nothing has happened to the package variables, or \<open>Default\<close> has run and its logger is
  in place.
\<close>

fun is_setup :: "'v call \<Rightarrow> bool" where
  "is_setup (CallInit f l ms mb ma rb so) = True"
| "is_setup (CallDateRolling f l mb ma so) = True"
| "is_setup (CallSizeRolling f l ms mb ma so) = True"
| "is_setup c = False"

definition guarded :: "'v state \<Rightarrow> bool" where
  "guarded s = (Sugar s = None \<longrightarrow> \<not> once_done s)"

definition before_setup :: "(string \<Rightarrow> string option) \<Rightarrow> 'v state \<Rightarrow> bool" where
  "before_setup env s =
     (environ s = env \<and>
      (if once_done s
       then Logger s = Logger (Default (initial env :: 'v state)) \<and>
            Sugar s = Sugar (Default (initial env :: 'v state))
       else Logger s = None \<and> Sugar s = None \<and> allocated s = 0))"

text \<open>
  A call that leads from \<open>s\<close> to \<open>s'\<close> installs a new logger when \<open>Logger\<close> holds a logger
  numbered by the count of loggers built in \<open>s\<close>, \<open>Sugar\<close> holds the sugared logger made
  from that very logger, and one more logger has been built. The two package variables
  are in step when \<open>Sugar\<close> is the sugared logger of \<open>Logger\<close>, or both are nil.
\<close>

definition installs_new :: "'v state \<Rightarrow> 'v state \<Rightarrow> bool" where
  "installs_new s s' =
     (case Logger s' of
        None \<Rightarrow> False
      | Some l \<Rightarrow> ident l = allocated s \<and> Sugar s' = Some (Sugar_of l)
                  \<and> allocated s' = Suc (allocated s))"

definition in_step :: "'v state \<Rightarrow> bool" where
  "in_step s = (Sugar s = map_option Sugar_of (Logger s))"

section \<open>Retention policy of date-based rotation\<close>

lemma to_int_to_uint [simp]: "to_int (to_uint x) = x"
  by (simp add: to_int_def to_uint_def)

lemma sint_days:
  fixes maxAge :: go_int
  assumes "- 106751 \<le> sint maxAge" "sint maxAge \<le> 106751"
  shows "sint (Hour * 24 * to_Duration maxAge) = sint maxAge * nanoseconds_per_day"
proof -
  have "sint (86400000000000 * maxAge) = signed_take_bit 63 (86400000000000 * sint maxAge)"
    by (simp add: sint_word_ariths)
  also have "\<dots> = 86400000000000 * sint maxAge"
    using assms by (intro signed_take_bit_int_eq_self) auto
  finally show ?thesis by (simp add: Hour_def Nanosecond_def to_Duration_def nanoseconds_per_day_def)
qed

lemma uint_to_uint:
  fixes maxBackups :: go_int
  assumes "0 \<le> sint maxBackups"
  shows "uint (to_uint maxBackups) = sint maxBackups"
proof -
  let ?x = maxBackups
  have b: "0 \<le> uint ?x" "uint ?x < 2 ^ 64" using uint_lt2p [of ?x] by simp_all
  have "sint ?x = take_bit 64 (uint ?x) - 2 ^ 64 * of_bool (bit (uint ?x) 63)"
    by (simp add: sint_uint signed_take_bit_eq_take_bit_minus)
  moreover have "take_bit 64 (uint ?x) = uint ?x"
    using b by (simp add: take_bit_int_eq_self)
  ultimately have e: "sint ?x = uint ?x - 2 ^ 64 * of_bool (bit (uint ?x) 63)"
    by simp
  with b assms have "uint ?x = sint ?x" by (cases "bit (uint ?x) 63") simp_all
  then show ?thesis by (simp add: to_uint_def)
qed

lemma retention_options:
  "filter is_retention (RotateLogs_options filePath n maxAge) =
     [if sint maxAge < sint (to_int n) then WithMaxAge (Hour * 24 * to_Duration maxAge)
      else WithRotationCount n]"
  by (simp add: RotateLogs_options_def)

lemma DateRolling_Return:
  assumes "DateRolling reject u filename logLevel maxBackups maxAge stdout s = Return s'"
  shows "reject (RotateLogs_filename filename) (RotateLogs_options filename (to_uint maxBackups) maxAge) = None"
    and "s' = set_Logger
           (devCore stdout (fst (logLv u logLevel))
              (logCore (RotateLogsSyncer \<lparr>pattern = RotateLogs_filename filename,
                  options = RotateLogs_options filename (to_uint maxBackups) maxAge\<rparr>)
                 (fst (logLv u logLevel)) []))
           (s\<lparr>printed := printed s @ snd (logLv u logLevel)\<rparr>)"
  using assms
  by (auto simp: DateRolling_def RotateLogs_def rotatelogs_New_def Let_def
      split: option.splits prod.splits)

lemma file_retention_set_Logger:
  "file_retention (set_Logger (devCore so lvl (logCore (RotateLogsSyncer w) lvl [])) s) =
     filter is_retention (options w)"
  by (simp add: file_retention_def set_Logger_def zap_New_def devCore_def logCore_def NewCore_def Let_def)

text \<open>
  C1 (amended). Date-based rotation setup configures exactly one retention option. Through
  \<open>DateRolling\<close>, where \<open>maxBackups\<close> is an \<open>int\<close>: when \<open>maxBackups > maxAge\<close> as signed
  integers it is \<open>WithMaxAge\<close> of 24 hours times \<open>maxAge\<close>, computed in wrapping 64-bit
  nanoseconds, otherwise it is \<open>WithRotationCount (uint maxBackups)\<close>; this is also the only
  retention option of the logger that \<open>DateRolling\<close> installs. The duration is exactly
  \<open>maxAge\<close> days when \<open>maxAge\<close> is between -106751 and 106751, and the count is exactly
  \<open>maxBackups\<close> when \<open>maxBackups\<close> is not negative.
\<close>

theorem DateRolling_retention_policy:
  fixes maxBackups maxAge :: go_int
  shows "filter is_retention (RotateLogs_options filePath (to_uint maxBackups) maxAge) =
           [if sint maxAge < sint maxBackups
            then WithMaxAge (Hour * 24 * to_Duration maxAge)
            else WithRotationCount (to_uint maxBackups)]
       \<and> (DateRolling reject u filePath logLevel maxBackups maxAge stdout s = Return s' \<longrightarrow>
            file_retention s' =
              [if sint maxAge < sint maxBackups
               then WithMaxAge (Hour * 24 * to_Duration maxAge)
               else WithRotationCount (to_uint maxBackups)])
       \<and> (- 106751 \<le> sint maxAge \<and> sint maxAge \<le> 106751 \<longrightarrow>
            sint (Hour * 24 * to_Duration maxAge) = sint maxAge * nanoseconds_per_day)
       \<and> (0 \<le> sint maxBackups \<longrightarrow> uint (to_uint maxBackups) = sint maxBackups)"
proof (intro conjI impI)
  show a: "filter is_retention (RotateLogs_options filePath (to_uint maxBackups) maxAge) =
           [if sint maxAge < sint maxBackups
            then WithMaxAge (Hour * 24 * to_Duration maxAge)
            else WithRotationCount (to_uint maxBackups)]"
    by (simp add: retention_options)
  show "file_retention s' =
              [if sint maxAge < sint maxBackups
               then WithMaxAge (Hour * 24 * to_Duration maxAge)
               else WithRotationCount (to_uint maxBackups)]"
    if "DateRolling reject u filePath logLevel maxBackups maxAge stdout s = Return s'"
    using DateRolling_Return(2)[OF that] a by (simp add: file_retention_set_Logger)
  show "sint (Hour * 24 * to_Duration maxAge) = sint maxAge * nanoseconds_per_day"
    if "- 106751 \<le> sint maxAge \<and> sint maxAge \<le> 106751"
    using that sint_days by blast
  show "uint (to_uint maxBackups) = sint maxBackups" if "0 \<le> sint maxBackups"
    using that by (rule uint_to_uint)
qed

lemma DateRolling_accept:
  "DateRolling accept_all u f l mb ma so s =
     Return (set_Logger
           (devCore so (fst (logLv u l))
              (logCore (RotateLogsSyncer \<lparr>pattern = RotateLogs_filename f,
                  options = RotateLogs_options f (to_uint mb) ma\<rparr>)
                 (fst (logLv u l)) []))
           (s\<lparr>printed := printed s @ snd (logLv u l)\<rparr>))"
  by (simp add: DateRolling_def RotateLogs_def rotatelogs_New_def accept_all_def Let_def split: prod.splits)

text \<open>
  Witness for C1: \<open>maxBackups = 10, maxAge = 3\<close> retains by age, three days;
  \<open>maxBackups = 3, maxAge = 10\<close> retains by count, three files.
\<close>

theorem DateRolling_retention_policy_witness:
  "file_retention (state_of (DateRolling accept_all id ''app.log'' ''info'' 10 3 []
       (initial no_env :: string state))) = [WithMaxAge 259200000000000]
   \<and> sint (259200000000000 :: Duration) = 3 * nanoseconds_per_day
   \<and> file_retention (state_of (DateRolling accept_all id ''app.log'' ''info'' 3 10 []
       (initial no_env :: string state))) = [WithRotationCount 3]
   \<and> uint (3 :: go_uint) = 3"
proof -
  let ?s = "initial no_env :: string state"
  let ?a = "DateRolling accept_all id ''app.log'' ''info'' 10 3 [] ?s"
  let ?b = "DateRolling accept_all id ''app.log'' ''info'' 3 10 [] ?s"
  have ra: "?a = Return (state_of ?a)" and rb: "?b = Return (state_of ?b)"
    by (simp_all add: DateRolling_accept)
  have la: "sint (3::go_int) < sint (10::go_int)" and lb: "\<not> sint (10::go_int) < sint (3::go_int)"
    by simp_all
  have ha: "- 106751 \<le> sint (3::go_int) \<and> sint (3::go_int) \<le> 106751" by simp
  have d: "Hour * 24 * to_Duration 3 = 259200000000000"
    by (simp add: Hour_def Nanosecond_def to_Duration_def)
  have u: "to_uint 3 = 3" by (simp add: to_uint_def)
  from DateRolling_retention_policy [of "''app.log''" 10 3 accept_all id "''info''" "[]" ?s "state_of ?a"]
    DateRolling_retention_policy [of "''app.log''" 3 10 accept_all id "''info''" "[]" ?s "state_of ?b"]
    ra rb la lb ha d u
  show ?thesis by simp
qed

text \<open>
  Counterexample for C1 as stated: with \<open>maxBackups = 106753\<close> and \<open>maxAge = 106752\<close> the
  age branch is taken, and the configured duration has wrapped around: it is negative, not
  106752 days.
\<close>

theorem DateRolling_retention_overflow_counterexample:
  "file_retention (state_of (DateRolling accept_all id ''app.log'' ''info'' 106753 106752 []
       (initial no_env :: string state))) = [WithMaxAge (- 9223371273709551616)]
   \<and> sint (- 9223371273709551616 :: Duration) \<noteq> 106752 * nanoseconds_per_day"
  by (simp add: DateRolling_accept file_retention_set_Logger RotateLogs_options_def
      to_uint_def to_int_def to_Duration_def Hour_def Nanosecond_def nanoseconds_per_day_def)

section \<open>File-name pattern of date-based rotation\<close>

text \<open>
  The loop of \<open>filepath.Ext\<close>: either it finds nothing, and then every dot among the
  first \<open>n\<close> bytes has a separator after it, or it returns the path from a dot on, and no
  dot and no separator follows that dot.
\<close>

lemma Ext_from_cases:
  "(Ext_from p n = [] \<and>
      (\<forall>i<n. (\<forall>j. i \<le> j \<and> j < n \<longrightarrow> p ! j \<noteq> CHR ''/'') \<longrightarrow> p ! i \<noteq> CHR ''.'')) \<or>
   (\<exists>i<n. Ext_from p n = drop i p \<and> p ! i = CHR ''.'' \<and>
      (\<forall>j. i < j \<and> j < n \<longrightarrow> p ! j \<noteq> CHR ''.'' \<and> p ! j \<noteq> CHR ''/''))"
  (is "?none n \<or> ?some n")
proof (induction n)
  case 0
  then show ?case by simp
next
  case (Suc n)
  show ?case
  proof (cases "p ! n = CHR ''/''")
    case True
    then show ?thesis by (auto simp: IsPathSeparator_def)
  next
    case sep: False
    show ?thesis
    proof (cases "p ! n = CHR ''.''")
      case True
      then show ?thesis using sep by (auto simp: IsPathSeparator_def)
    next
      case dot: False
      from Suc.IH show ?thesis
      proof
        assume a: "?none n"
        have "p ! i \<noteq> CHR ''.''"
          if "i < Suc n" and h: "\<forall>j. i \<le> j \<and> j < Suc n \<longrightarrow> p ! j \<noteq> CHR ''/''" for i
        proof (cases "i = n")
          case True
          then show ?thesis using dot by simp
        next
          case False
          then have "i < n" using that(1) by simp
          moreover have "\<forall>j. i \<le> j \<and> j < n \<longrightarrow> p ! j \<noteq> CHR ''/''" using h by auto
          ultimately show ?thesis using a by blast
        qed
        then show ?thesis using a sep dot by (simp add: IsPathSeparator_def)
      next
        assume "?some n"
        then obtain i where i: "i < n" "Ext_from p n = drop i p" "p ! i = CHR ''.''"
          "\<forall>j. i < j \<and> j < n \<longrightarrow> p ! j \<noteq> CHR ''.'' \<and> p ! j \<noteq> CHR ''/''" by blast
        have "\<forall>j. i < j \<and> j < Suc n \<longrightarrow> p ! j \<noteq> CHR ''.'' \<and> p ! j \<noteq> CHR ''/''"
          using i(4) sep dot less_Suc_eq by auto
        then have "?some (Suc n)"
          using i sep dot by (intro exI[of _ i]) (simp add: IsPathSeparator_def)
        then show ?thesis by blast
      qed
    qed
  qed
qed

lemma Ext_is_suffix: "\<exists>stem. filePath = stem @ Ext filePath"
proof -
  from Ext_from_cases [of filePath "length filePath"]
  consider "Ext filePath = []" | i where "Ext filePath = drop i filePath"
    by (auto simp: Ext_def)
  then show ?thesis
  proof cases
    case 1
    then show ?thesis by simp
  next
    case 2
    then have "filePath = take i filePath @ Ext filePath" by simp
    then show ?thesis by blast
  qed
qed

lemma TrimSuffix_append: "TrimSuffix (stem @ suf) suf = stem"
  by (simp add: TrimSuffix_def HasSuffix_def)

text \<open>
  An extension starts at a dot and holds no other dot and no separator; a path has none
  only if every dot in it is followed by a separator.
\<close>

lemma Ext_shape:
  assumes "Ext filePath \<noteq> []"
  shows "\<exists>rest. Ext filePath = CHR ''.'' # rest \<and> CHR ''.'' \<notin> set rest \<and> CHR ''/'' \<notin> set rest"
proof -
  from Ext_from_cases [of filePath "length filePath"] assms
  obtain i where i: "i < length filePath" "Ext filePath = drop i filePath" "filePath ! i = CHR ''.''"
    and rest: "\<forall>j. i < j \<and> j < length filePath \<longrightarrow> filePath ! j \<noteq> CHR ''.'' \<and> filePath ! j \<noteq> CHR ''/''"
    unfolding Ext_def by blast
  have d: "drop i filePath = filePath ! i # drop (Suc i) filePath"
    using i(1) by (simp add: Cons_nth_drop_Suc)
  have r: "c \<noteq> CHR ''.'' \<and> c \<noteq> CHR ''/''" if "c \<in> set (drop (Suc i) filePath)" for c
  proof -
    from that obtain k where k: "k < length filePath - Suc i" "c = drop (Suc i) filePath ! k"
      unfolding in_set_conv_nth by auto
    have "i < Suc i + k \<and> Suc i + k < length filePath" using k(1) by simp
    then have "filePath ! (Suc i + k) \<noteq> CHR ''.'' \<and> filePath ! (Suc i + k) \<noteq> CHR ''/''"
      using rest [rule_format, of "Suc i + k"] by simp
    moreover have "c = filePath ! (Suc i + k)" using k by simp
    ultimately show ?thesis by simp
  qed
  have "Ext filePath = CHR ''.'' # drop (Suc i) filePath"
    using i(2) i(3) d by simp
  moreover have "CHR ''.'' \<notin> set (drop (Suc i) filePath)" using r by blast
  moreover have "CHR ''/'' \<notin> set (drop (Suc i) filePath)" using r by blast
  ultimately show ?thesis by blast
qed

lemma Ext_none:
  assumes "Ext filePath = []" "i < length filePath" "filePath ! i = CHR ''.''"
  shows "\<exists>j. i \<le> j \<and> j < length filePath \<and> filePath ! j = CHR ''/''"
proof -
  have a: "\<forall>i<length filePath. (\<forall>j. i \<le> j \<and> j < length filePath \<longrightarrow> filePath ! j \<noteq> CHR ''/'')
             \<longrightarrow> filePath ! i \<noteq> CHR ''.''"
    using Ext_from_cases [of filePath "length filePath"]
  proof (rule disjE)
    assume "Ext_from filePath (length filePath) = [] \<and>
      (\<forall>i<length filePath. (\<forall>j. i \<le> j \<and> j < length filePath \<longrightarrow> filePath ! j \<noteq> CHR ''/'')
         \<longrightarrow> filePath ! i \<noteq> CHR ''.'')"
    then show ?thesis by simp
  next
    assume "\<exists>i<length filePath. Ext_from filePath (length filePath) = drop i filePath \<and>
       filePath ! i = CHR ''.'' \<and>
       (\<forall>j. i < j \<and> j < length filePath \<longrightarrow> filePath ! j \<noteq> CHR ''.'' \<and> filePath ! j \<noteq> CHR ''/'')"
    then obtain k where "k < length filePath" "Ext filePath = drop k filePath"
      unfolding Ext_def by blast
    with assms(1) show ?thesis by simp
  qed
  show ?thesis
    using a [rule_format, of i] assms(2,3) by blast
qed


text \<open>
  C3. The rotated-file pattern that \<open>RotateLogs\<close> builds is the path with the date suffix
  \<open>.%Y%m%d\<close> put before the extension when \<open>filepath.Ext\<close> finds one, and put at the
  end when it finds none; it is the pattern handed to \<open>rotatelogs.New\<close>. \<open>app.log\<close>
  gives \<open>app.%Y%m%d.log\<close> and \<open>app\<close> gives \<open>app.%Y%m%d\<close>.
\<close>

theorem RotateLogs_filename_date_suffix:
  "(Ext filePath \<noteq> [] \<longrightarrow>
      (\<exists>stem. filePath = stem @ Ext filePath \<and>
         RotateLogs_filename filePath = stem @ ''.%Y%m%d'' @ Ext filePath))
   \<and> (Ext filePath = [] \<longrightarrow> RotateLogs_filename filePath = filePath @ ''.%Y%m%d'')
   \<and> (RotateLogs reject filePath maxBackups maxAge = Inr w \<longrightarrow>
         pattern w = RotateLogs_filename filePath)
   \<and> RotateLogs_filename ''app.log'' = ''app.%Y%m%d.log''
   \<and> RotateLogs_filename ''app'' = ''app.%Y%m%d''"
proof (intro conjI impI)
  show "\<exists>stem. filePath = stem @ Ext filePath \<and>
         RotateLogs_filename filePath = stem @ ''.%Y%m%d'' @ Ext filePath"
    if "Ext filePath \<noteq> []"
  proof -
    from Ext_is_suffix obtain stem where stem: "filePath = stem @ Ext filePath" by blast
    have "TrimSuffix filePath (Ext filePath) = stem"
      using TrimSuffix_append [of stem "Ext filePath"] stem by simp
    then have "RotateLogs_filename filePath = stem @ ''.%Y%m%d'' @ Ext filePath"
      using that by (simp add: RotateLogs_filename_def dateRollingSuffix_def Let_def)
    with stem show ?thesis by blast
  qed
  show "RotateLogs_filename filePath = filePath @ ''.%Y%m%d''" if "Ext filePath = []"
    using that by (simp add: RotateLogs_filename_def dateRollingSuffix_def)
  show "pattern w = RotateLogs_filename filePath"
    if "RotateLogs reject filePath maxBackups maxAge = Inr w"
    using that by (auto simp: RotateLogs_def rotatelogs_New_def split: option.splits)
  show "RotateLogs_filename ''app.log'' = ''app.%Y%m%d.log''"
    by code_simp
  show "RotateLogs_filename ''app'' = ''app.%Y%m%d''"
    by code_simp
qed



text \<open>Witness for C3, at \<open>app.log\<close> (an extension) and \<open>app\<close> (none).\<close>

theorem RotateLogs_filename_date_suffix_witness:
  "Ext ''app.log'' \<noteq> []
   \<and> (\<exists>stem. ''app.log'' = stem @ Ext ''app.log'' \<and>
         RotateLogs_filename ''app.log'' = stem @ ''.%Y%m%d'' @ Ext ''app.log'')
   \<and> Ext ''app'' = []
   \<and> RotateLogs_filename ''app'' = ''app'' @ ''.%Y%m%d''
   \<and> RotateLogs accept_all ''app.log'' 3 10 =
        Inr \<lparr>pattern = ''app.%Y%m%d.log'', options = RotateLogs_options ''app.log'' 3 10\<rparr>
   \<and> pattern \<lparr>pattern = ''app.%Y%m%d.log'', options = RotateLogs_options ''app.log'' 3 10\<rparr> =
        RotateLogs_filename ''app.log''"
proof -
  have e1: "Ext ''app.log'' \<noteq> []" by code_simp
  have e2: "Ext ''app'' = []" by code_simp
  have f: "RotateLogs_filename ''app.log'' = ''app.%Y%m%d.log''" by code_simp
  have r: "RotateLogs accept_all ''app.log'' 3 10 =
        Inr \<lparr>pattern = ''app.%Y%m%d.log'', options = RotateLogs_options ''app.log'' 3 10\<rparr>"
    by (simp add: RotateLogs_def rotatelogs_New_def accept_all_def f)
  from RotateLogs_filename_date_suffix [of "''app.log''" accept_all 3 10
      "\<lparr>pattern = ''app.%Y%m%d.log'', options = RotateLogs_options ''app.log'' 3 10\<rparr>"]
    RotateLogs_filename_date_suffix [of "''app''" accept_all 3 10
      "\<lparr>pattern = ''app.%Y%m%d.log'', options = RotateLogs_options ''app.log'' 3 10\<rparr>"]
    e1 e2 r
  show ?thesis by blast
qed

section \<open>Level parsing\<close>

lemma ToUpper_ascii: "is_ascii s \<Longrightarrow> ToUpper u s = map upper_ascii s"
proof -
  assume a: "is_ascii s"
  have "map upper_ascii s = s" if "\<not> list_ex is_lower_ascii s"
    using that by (induction s) (simp_all add: upper_ascii_def)
  then show ?thesis using a by (simp add: ToUpper_def is_ascii_def)
qed

lemma ToUpper_Nil: "ToUpper u [] = []"
  by (simp add: ToUpper_def)

lemma logLv_level:
  "fst (logLv u s) =
     (if ToUpper u s = ''DEBUG'' then DebugLevel
      else if ToUpper u s = ''WARN'' then WarnLevel
      else if ToUpper u s = ''ERROR'' then ErrorLevel
      else if ToUpper u s = ''DPANIC'' then DPanicLevel
      else if ToUpper u s = ''PANIC'' then PanicLevel
      else if ToUpper u s = ''FATAL'' then FatalLevel
      else InfoLevel)"
  by (simp add: logLv_def Let_def)

lemma logLv_printed:
  "snd (logLv u s) =
     (if ToUpper u s \<in> set level_names \<or> ToUpper u s = [] then []
      else [invalid_level_warning s])"
  by (simp add: logLv_def Let_def level_names_def invalid_level_warning_def)

text \<open>
  C2. \<open>logLv\<close> gives every string exactly one of the seven levels, and the level depends
  only on the upper-cased string: two strings with the same upper-casing (for ASCII
  strings, two strings that differ in letter case only) get the same level, each of the
  seven names gets its level, and every other string, the empty one too, gets INFO. The
  warning line is printed exactly for the strings whose upper-casing is neither one of
  the seven names nor empty.
\<close>

theorem logLv_total_case_insensitive:
  "fst (logLv u s) \<in>
      {DebugLevel, InfoLevel, WarnLevel, ErrorLevel, DPanicLevel, PanicLevel, FatalLevel}
   \<and> (ToUpper u s = ToUpper u t \<longrightarrow> fst (logLv u s) = fst (logLv u t))
   \<and> (is_ascii s \<and> is_ascii t \<and> map upper_ascii s = map upper_ascii t \<longrightarrow>
         fst (logLv u s) = fst (logLv u t))
   \<and> (ToUpper u s = ''DEBUG'' \<longrightarrow> fst (logLv u s) = DebugLevel)
   \<and> (ToUpper u s = ''INFO'' \<longrightarrow> fst (logLv u s) = InfoLevel)
   \<and> (ToUpper u s = ''WARN'' \<longrightarrow> fst (logLv u s) = WarnLevel)
   \<and> (ToUpper u s = ''ERROR'' \<longrightarrow> fst (logLv u s) = ErrorLevel)
   \<and> (ToUpper u s = ''DPANIC'' \<longrightarrow> fst (logLv u s) = DPanicLevel)
   \<and> (ToUpper u s = ''PANIC'' \<longrightarrow> fst (logLv u s) = PanicLevel)
   \<and> (ToUpper u s = ''FATAL'' \<longrightarrow> fst (logLv u s) = FatalLevel)
   \<and> (ToUpper u s \<notin> set level_names \<longrightarrow> fst (logLv u s) = InfoLevel)
   \<and> logLv u [] = (InfoLevel, [])
   \<and> (ToUpper u s \<notin> set level_names \<and> ToUpper u s \<noteq> [] \<longrightarrow>
         snd (logLv u s) = [invalid_level_warning s])
   \<and> (ToUpper u s \<in> set level_names \<or> ToUpper u s = [] \<longrightarrow> snd (logLv u s) = [])"
proof (intro conjI impI)
  show "fst (logLv u s) \<in>
      {DebugLevel, InfoLevel, WarnLevel, ErrorLevel, DPanicLevel, PanicLevel, FatalLevel}"
    by (cases "fst (logLv u s)") simp_all
  show "fst (logLv u s) = fst (logLv u t)" if "ToUpper u s = ToUpper u t"
    using that by (simp add: logLv_level)
  show "fst (logLv u s) = fst (logLv u t)"
    if "is_ascii s \<and> is_ascii t \<and> map upper_ascii s = map upper_ascii t"
  proof -
    from that have "ToUpper u s = ToUpper u t" by (simp add: ToUpper_ascii)
    then show ?thesis by (simp add: logLv_level)
  qed
  show "fst (logLv u s) = DebugLevel" if "ToUpper u s = ''DEBUG''"
    using that by (simp add: logLv_level)
  show "fst (logLv u s) = InfoLevel" if "ToUpper u s = ''INFO''"
    using that by (simp add: logLv_level)
  show "fst (logLv u s) = WarnLevel" if "ToUpper u s = ''WARN''"
    using that by (simp add: logLv_level)
  show "fst (logLv u s) = ErrorLevel" if "ToUpper u s = ''ERROR''"
    using that by (simp add: logLv_level)
  show "fst (logLv u s) = DPanicLevel" if "ToUpper u s = ''DPANIC''"
    using that by (simp add: logLv_level)
  show "fst (logLv u s) = PanicLevel" if "ToUpper u s = ''PANIC''"
    using that by (simp add: logLv_level)
  show "fst (logLv u s) = FatalLevel" if "ToUpper u s = ''FATAL''"
    using that by (simp add: logLv_level)
  show "fst (logLv u s) = InfoLevel" if "ToUpper u s \<notin> set level_names"
    using that by (simp add: logLv_level level_names_def)
  show "logLv u [] = (InfoLevel, [])"
    by (simp add: logLv_def ToUpper_Nil)
  show "snd (logLv u s) = [invalid_level_warning s]"
    if "ToUpper u s \<notin> set level_names \<and> ToUpper u s \<noteq> []"
    using that by (simp add: logLv_printed)
  show "snd (logLv u s) = []" if "ToUpper u s \<in> set level_names \<or> ToUpper u s = []"
    using that by (simp add: logLv_printed)
qed

lemma ToUpper_debug: "ToUpper id ''DeBuG'' = ''DEBUG''"
  by code_simp

lemma ToUpper_DEBUG: "ToUpper id ''DEBUG'' = ''DEBUG''"
  by code_simp

lemma ToUpper_verbose: "ToUpper id ''verbose'' = ''VERBOSE''"
  by code_simp

text \<open>
  Witness for C2: \<open>DeBuG\<close> and \<open>DEBUG\<close> parse to DEBUG without output; \<open>verbose\<close> parses
  to INFO and prints the warning.
\<close>

theorem logLv_total_case_insensitive_witness:
  "ToUpper id ''DeBuG'' = ToUpper id ''DEBUG''
   \<and> fst (logLv id ''DeBuG'') = fst (logLv id ''DEBUG'')
   \<and> fst (logLv id ''DeBuG'') = DebugLevel
   \<and> ToUpper id ''verbose'' \<notin> set level_names \<and> ToUpper id ''verbose'' \<noteq> []
   \<and> logLv id ''verbose'' = (InfoLevel, [invalid_level_warning ''verbose''])
   \<and> snd (logLv id ''DEBUG'') = []"
proof -
  have v: "ToUpper id ''verbose'' \<notin> set level_names \<and> ToUpper id ''verbose'' \<noteq> []"
    by (simp add: ToUpper_verbose level_names_def)
  have d: "ToUpper id ''DEBUG'' \<in> set level_names"
    by (simp add: ToUpper_DEBUG level_names_def)
  from logLv_total_case_insensitive [of id "''DeBuG''" "''DEBUG''"]
    logLv_total_case_insensitive [of id "''verbose''" "''verbose''"]
    logLv_total_case_insensitive [of id "''DEBUG''" "''DEBUG''"]
    ToUpper_debug ToUpper_DEBUG v d
  show ?thesis by (simp add: prod_eq_iff)
qed

section \<open>What each function changes and what it leaves alone\<close>

lemma set_Logger_fields [simp]:
  "once_done (set_Logger cs s) = once_done s"
  "environ (set_Logger cs s) = environ s"
  "printed (set_Logger cs s) = printed s"
  "written (set_Logger cs s) = written s"
  "allocated (set_Logger cs s) = Suc (allocated s)"
  "Logger (set_Logger cs s) =
     Some \<lparr>ident = allocated s, cores = cs, addCaller = True, callerSkip = 1\<rparr>"
  "Sugar (set_Logger cs s) =
     Some \<lparr>base = \<lparr>ident = allocated s, cores = cs, addCaller = True, callerSkip = 3\<rparr>\<rparr>"
  by (simp_all add: set_Logger_def zap_New_def Sugar_of_def Let_def)

lemma ACTIVE_set_Logger [simp]: "ACTIVE (set_Logger cs s)"
  by (simp add: ACTIVE_def)

lemma Default_once_done [simp]: "once_done (Default s)"
  by (simp add: Default_def Default_body_def Let_def)

lemma Default_when_done: "once_done s \<Longrightarrow> Default s = s"
  by (simp add: Default_def)

lemma Default_ACTIVE: "ACTIVE s \<Longrightarrow> ACTIVE (Default s)"
  by (simp add: Default_def Default_body_def Let_def ACTIVE_def)

lemma Default_fresh:
  "\<not> once_done s \<Longrightarrow>
     Default s = (set_Logger
        [NewCore (NewDevelopmentEncoderConfig\<lparr>EncodeTime := timeEncoder, EncodeLevel := CapitalLevelEncoder\<rparr>)
           Stdout (if Getenv (environ s) ''DEBUG'' = [] then InfoLevel else DebugLevel)] s)
        \<lparr>once_done := True\<rparr>"
  by (simp add: Default_def Default_body_def Let_def)

lemma SizeRolling_Return:
  "SizeRolling u f l ms mb ma so s =
     Return (set_Logger
       (devCore so (fst (logLv u l))
          (logCore (LumberjackSyncer \<lparr>Filename = f, MaxSize = ms, LocalTime = True,
              MaxBackups = mb, MaxAge = ma, Compress = True\<rparr>) (fst (logLv u l)) []))
       (s\<lparr>printed := printed s @ snd (logLv u l)\<rparr>))"
  by (simp add: SizeRolling_def Let_def split: prod.splits)

lemma DateRolling_cases:
  "DateRolling r u f l mb ma so s =
     (case r (RotateLogs_filename f) (RotateLogs_options f (to_uint mb) ma) of
        Some err \<Rightarrow> Panic (SetupError err) s
      | None \<Rightarrow> Return (set_Logger
           (devCore so (fst (logLv u l))
              (logCore (RotateLogsSyncer \<lparr>pattern = RotateLogs_filename f,
                  options = RotateLogs_options f (to_uint mb) ma\<rparr>) (fst (logLv u l)) []))
           (s\<lparr>printed := printed s @ snd (logLv u l)\<rparr>)))"
  by (simp add: DateRolling_def RotateLogs_def rotatelogs_New_def Let_def
      split: option.splits prod.splits)

lemma Sugar_log_state:
  "once_done (state_of (Sugar_log lvl msg s)) = once_done s"
  "Logger (state_of (Sugar_log lvl msg s)) = Logger s"
  "Sugar (state_of (Sugar_log lvl msg s)) = Sugar s"
  "allocated (state_of (Sugar_log lvl msg s)) = allocated s"
  "environ (state_of (Sugar_log lvl msg s)) = environ s"
  by (simp_all add: Sugar_log_def Let_def split: option.splits)

text \<open>Every exported function keeps the done flag of \<open>once\<close> and keeps the package ACTIVE.\<close>

lemma log_call_unfold:
  "log_entry c = Some (lvl, msg) \<Longrightarrow>
     exec r u c s = Sugar_log lvl msg (if Sugar s = None then Default s else s)"
  by (cases c)
     (simp_all add: Info_def Infof_def Debug_def Debugf_def Warn_def Warnf_def Error_def
        Errorf_def Fatal_def Fatalf_def)

lemma SizeRolling_keeps:
  "once_done (state_of (SizeRolling u f l ms mb ma so s)) = once_done s"
  "environ (state_of (SizeRolling u f l ms mb ma so s)) = environ s"
  "ACTIVE (state_of (SizeRolling u f l ms mb ma so s))"
  by (simp_all add: SizeRolling_Return)

lemma DateRolling_keeps:
  "once_done (state_of (DateRolling r u f l mb ma so s)) = once_done s"
  "environ (state_of (DateRolling r u f l mb ma so s)) = environ s"
  "ACTIVE s \<Longrightarrow> ACTIVE (state_of (DateRolling r u f l mb ma so s))"
  by (simp_all add: DateRolling_cases split: option.splits)

lemma Init_keeps:
  "once_done (state_of (Init r u f l ms mb ma rb so s)) = once_done s"
  "environ (state_of (Init r u f l ms mb ma rb so s)) = environ s"
  "ACTIVE s \<Longrightarrow> ACTIVE (state_of (Init r u f l ms mb ma rb so s))"
  by (simp_all add: Init_def SizeRolling_keeps DateRolling_keeps)

lemma log_call_keeps:
  assumes "log_entry c = Some (lvl, msg)"
  shows "once_done s \<Longrightarrow> once_done (state_of (exec r u c s))"
    and "ACTIVE s \<Longrightarrow> ACTIVE (state_of (exec r u c s))"
proof -
  show "once_done (state_of (exec r u c s))" if "once_done s"
    using that by (simp add: log_call_unfold [OF assms] Sugar_log_state)
  show "ACTIVE (state_of (exec r u c s))" if "ACTIVE s"
  proof -
    from that obtain sg where "Sugar s = Some sg" by (auto simp: ACTIVE_def)
    then have "exec r u c s = Sugar_log lvl msg s"
      by (simp add: log_call_unfold [OF assms])
    then show ?thesis using that by (simp add: ACTIVE_def Sugar_log_state)
  qed
qed

lemma exec_once_done:
  assumes "once_done s" shows "once_done (state_of (exec r u c s))"
proof (cases "log_entry c")
  case None
  then show ?thesis using assms
    by (cases c) (simp_all add: Init_keeps SizeRolling_keeps DateRolling_keeps)
next
  case (Some e)
  then show ?thesis using assms log_call_keeps(1) [of c "fst e" "snd e" s r u] by simp
qed

lemma exec_ACTIVE:
  assumes "ACTIVE s" shows "ACTIVE (state_of (exec r u c s))"
proof (cases "log_entry c")
  case None
  then show ?thesis using assms
    by (cases c) (simp_all add: Init_keeps SizeRolling_keeps DateRolling_keeps Default_ACTIVE)
next
  case (Some e)
  then show ?thesis using assms log_call_keeps(2) [of c "fst e" "snd e" s r u] by simp
qed

lemma run_once_done: "once_done s \<Longrightarrow> once_done (state_of (run r u cs s))"
proof (induction cs arbitrary: s)
  case Nil
  then show ?case by simp
next
  case (Cons c cs)
  from exec_once_done [OF Cons.prems, of r u c]
  show ?case using Cons.IH
    by (cases "exec r u c s") simp_all
qed

lemma run_ACTIVE: "ACTIVE s \<Longrightarrow> ACTIVE (state_of (run r u cs s))"
proof (induction cs arbitrary: s)
  case Nil
  then show ?case by simp
next
  case (Cons c cs)
  from exec_ACTIVE [OF Cons.prems, of r u c]
  show ?case using Cons.IH
    by (cases "exec r u c s") simp_all
qed

section \<open>No call dereferences a nil logger\<close>

lemma guarded_initial: "guarded (initial env)"
  by (simp add: guarded_def initial_def)

lemma guarded_set_Logger [simp]: "guarded (set_Logger cs s)"
  by (simp add: guarded_def)

lemma guarded_Default: "guarded s \<Longrightarrow> guarded (Default s)"
  by (auto simp: guarded_def Default_def Default_body_def Let_def)

lemma Sugar_Default: "guarded s \<Longrightarrow> Sugar (Default s) \<noteq> None"
  by (auto simp: guarded_def Default_def Default_body_def Let_def)

lemma exec_guarded:
  assumes "guarded s" shows "guarded (state_of (exec r u c s))"
proof (cases "log_entry c")
  case None
  then show ?thesis using assms
    by (cases c)
       (simp_all add: Init_def SizeRolling_Return DateRolling_cases guarded_Default
          split: option.splits)
next
  case (Some e)
  then have l: "log_entry c = Some (fst e, snd e)" by simp
  show ?thesis
    using assms guarded_Default [OF assms]
    by (simp add: log_call_unfold [OF l] guarded_def Sugar_log_state)
qed

lemma exec_no_nil:
  assumes "guarded s" shows "exec r u c s \<noteq> Panic NilPointerDereference t"
proof (cases "log_entry c")
  case None
  then show ?thesis
    by (cases c)
       (simp_all add: Init_def SizeRolling_Return DateRolling_cases split: option.splits)
next
  case (Some e)
  then have l: "log_entry c = Some (fst e, snd e)" by simp
  let ?s = "if Sugar s = None then Default s else s"
  have "Sugar ?s \<noteq> None" using Sugar_Default [OF assms] by simp
  then obtain sg where "Sugar ?s = Some sg" by blast
  then have "Sugar_log (fst e) (snd e) ?s \<noteq> Panic NilPointerDereference t"
    unfolding Sugar_log_def by (simp add: Let_def)
  then show ?thesis unfolding log_call_unfold [OF l] .
qed

lemma run_no_nil:
  "guarded s \<Longrightarrow> run r u cs s \<noteq> Panic NilPointerDereference t"
proof (induction cs arbitrary: s)
  case Nil
  then show ?case by simp
next
  case (Cons c cs)
  from exec_guarded [OF Cons.prems, of r u c] exec_no_nil [OF Cons.prems, of r u c]
  show ?case using Cons.IH
    by (cases "exec r u c s") auto
qed

section \<open>Before any explicit setup\<close>

lemma before_setup_initial: "before_setup env (initial env)"
  by (simp add: before_setup_def initial_def)

lemma before_setup_Default:
  fixes s :: "'v state"
  assumes "before_setup env s"
  shows "before_setup env (Default s)"
    and "Logger (Default s) = Logger (Default (initial env :: 'v state))"
    and "Sugar (Default s) = Sugar (Default (initial env :: 'v state))"
proof -
  have a: "Logger (Default s) = Logger (Default (initial env :: 'v state)) \<and>
           Sugar (Default s) = Sugar (Default (initial env :: 'v state)) \<and>
           environ (Default s) = env"
  proof (cases "once_done s")
    case True
    then show ?thesis using assms by (simp add: Default_when_done before_setup_def)
  next
    case False
    then have "allocated s = 0" "environ s = env" using assms by (simp_all add: before_setup_def)
    then show ?thesis using False
      by (simp add: Default_fresh initial_def)
  qed
  then show "Logger (Default s) = Logger (Default (initial env :: 'v state))"
    and "Sugar (Default s) = Sugar (Default (initial env :: 'v state))" by simp_all
  from a show "before_setup env (Default s)" by (simp add: before_setup_def)
qed

lemma before_setup_Sugar_log:
  "before_setup env s \<Longrightarrow> before_setup env (state_of (Sugar_log lvl msg s))"
  by (simp add: before_setup_def Sugar_log_state)

lemma before_setup_ensure:
  assumes "before_setup env s"
  shows "(if Sugar s = None then Default s else s) = Default s"
proof (cases "once_done s")
  case True
  then show ?thesis by (simp add: Default_when_done)
next
  case False
  then show ?thesis using assms by (simp add: before_setup_def)
qed

lemma exec_before_setup:
  assumes "before_setup env s" "\<not> is_setup c"
  shows "before_setup env (state_of (exec r u c s))"
proof (cases "log_entry c")
  case None
  with assms(2) have "c = CallDefault" by (cases c) simp_all
  then show ?thesis using before_setup_Default(1) [OF assms(1)] by simp
next
  case (Some e)
  then have l: "log_entry c = Some (fst e, snd e)" by simp
  show ?thesis
    using before_setup_Sugar_log [OF before_setup_Default(1) [OF assms(1)]]
    by (simp only: log_call_unfold [OF l] before_setup_ensure [OF assms(1)])
qed

lemma run_before_setup:
  "before_setup env s \<Longrightarrow> list_all (\<lambda>k. \<not> is_setup k) cs \<Longrightarrow>
     before_setup env (state_of (run r u cs s))"
proof (induction cs arbitrary: s)
  case Nil
  then show ?case by simp
next
  case (Cons c cs)
  from Cons.prems have "before_setup env (state_of (exec r u c s))"
    by (simp add: exec_before_setup)
  then show ?case using Cons.IH Cons.prems(2)
    by (cases "exec r u c s") simp_all
qed

lemma default_Sugar:
  "Sugar (Default (initial env :: 'v state)) =
     Some \<lparr>base = \<lparr>ident = 0,
        cores = [NewCore (NewDevelopmentEncoderConfig
                   \<lparr>EncodeTime := timeEncoder, EncodeLevel := CapitalLevelEncoder\<rparr>)
                 Stdout (if Getenv env ''DEBUG'' = [] then InfoLevel else DebugLevel)],
        addCaller = True, callerSkip = 3\<rparr>\<rparr>"
  by (simp add: Default_fresh initial_def)

section \<open>Installing a logger\<close>

lemma installs_new_set_Logger:
  "allocated s1 = allocated s \<Longrightarrow> installs_new s (set_Logger cs s1)"
  by (simp add: installs_new_def set_Logger_def zap_New_def Sugar_of_def Let_def)

lemma in_step_set_Logger [simp]: "in_step (set_Logger cs s)"
  by (simp add: in_step_def set_Logger_def zap_New_def Sugar_of_def Let_def)

lemma in_step_initial: "in_step (initial env)"
  by (simp add: in_step_def initial_def)

lemma in_step_Default: "in_step s \<Longrightarrow> in_step (Default s)"
  by (simp add: Default_def Default_body_def Let_def in_step_def set_Logger_def zap_New_def
      Sugar_of_def)

lemma installs_new_SizeRolling:
  "installs_new s (state_of (SizeRolling u f l ms mb ma so s))"
  by (simp add: SizeRolling_Return installs_new_set_Logger)

lemma installs_new_DateRolling:
  "DateRolling r u f l mb ma so s = Return s' \<Longrightarrow> installs_new s s'"
  by (auto simp: DateRolling_cases installs_new_set_Logger split: option.splits)

lemma installs_new_Default:
  "\<not> once_done s \<Longrightarrow> installs_new s (Default s)"
  by (simp add: Default_def Default_body_def Let_def installs_new_def set_Logger_def zap_New_def
      Sugar_of_def)

lemma exec_in_step:
  assumes "in_step s" shows "in_step (state_of (exec r u c s))"
proof (cases "log_entry c")
  case None
  then show ?thesis using assms
    by (cases c)
       (simp_all add: Init_def SizeRolling_Return DateRolling_cases in_step_Default
          split: option.splits)
next
  case (Some e)
  then have l: "log_entry c = Some (fst e, snd e)" by simp
  have "in_step (if Sugar s = None then Default s else s)"
    using assms by (simp add: in_step_Default)
  then show ?thesis
    by (simp add: log_call_unfold [OF l] in_step_def Sugar_log_state)
qed

lemma run_in_step: "in_step s \<Longrightarrow> in_step (state_of (run r u cs s))"
proof (induction cs arbitrary: s)
  case Nil
  then show ?case by simp
next
  case (Cons c cs)
  from exec_in_step [OF Cons.prems, of r u c]
  show ?case using Cons.IH
    by (cases "exec r u c s") simp_all
qed

lemma log_call_through_Logger:
  assumes "log_entry c = Some (lvl, msg)" "in_step s" "Logger s = Some l"
  shows "exec r u c s = Sugar_log lvl msg s"
    and "Logger (state_of (exec r u c s)) = Some l"
    and "written (state_of (exec r u c s)) =
           written s @ map (\<lambda>k. (k, lvl, msg)) (filter (\<lambda>k. Enabled k lvl) (cores l))"
proof -
  have sg: "Sugar s = Some (Sugar_of l)" using assms(2,3) by (simp add: in_step_def)
  then show e: "exec r u c s = Sugar_log lvl msg s"
    by (simp add: log_call_unfold [OF assms(1)])
  show "Logger (state_of (exec r u c s)) = Some l"
    using assms(3) by (simp add: e Sugar_log_state)
  show "written (state_of (exec r u c s)) =
           written s @ map (\<lambda>k. (k, lvl, msg)) (filter (\<lambda>k. Enabled k lvl) (cores l))"
    using sg by (simp add: e Sugar_log_def Let_def Sugar_of_def)
qed

section \<open>The default logger\<close>

text \<open>
  C6. The first \<open>Default\<close> (the one whose \<open>once\<close> body runs) installs a logger with the
  single sink standard output, in \<open>Logger\<close> and in \<open>Sugar\<close>. Its minimum level is INFO
  when \<open>DEBUG\<close> is unset or set to the empty string, and DEBUG when it is set to any
  non-empty string.
\<close>

theorem Default_level_from_DEBUG:
  assumes "\<not> once_done s"
  shows "map_option sinks (Logger (Default s)) =
           Some [(Stdout, if Getenv (environ s) ''DEBUG'' = [] then InfoLevel else DebugLevel)]
       \<and> map_option (\<lambda>sg. sinks (base sg)) (Sugar (Default s)) =
           Some [(Stdout, if Getenv (environ s) ''DEBUG'' = [] then InfoLevel else DebugLevel)]
       \<and> (environ s ''DEBUG'' = None \<longrightarrow>
            map_option sinks (Logger (Default s)) = Some [(Stdout, InfoLevel)])
       \<and> (environ s ''DEBUG'' = Some [] \<longrightarrow>
            map_option sinks (Logger (Default s)) = Some [(Stdout, InfoLevel)])
       \<and> (\<forall>v. environ s ''DEBUG'' = Some v \<and> v \<noteq> [] \<longrightarrow>
            map_option sinks (Logger (Default s)) = Some [(Stdout, DebugLevel)])"
  using assms
  by (simp add: Default_fresh sinks_def NewCore_def Getenv_def)

text \<open>
  Witness for C6: the empty environment gives INFO, the environment \<open>DEBUG=true\<close> gives
  DEBUG.
\<close>

theorem Default_level_from_DEBUG_witness:
  "\<not> once_done (initial no_env :: string state)
   \<and> no_env ''DEBUG'' = None
   \<and> map_option sinks (Logger (Default (initial no_env :: string state))) =
        Some [(Stdout, InfoLevel)]
   \<and> \<not> once_done (initial debug_env :: string state)
   \<and> debug_env ''DEBUG'' = Some ''true'' \<and> ''true'' \<noteq> []
   \<and> map_option sinks (Logger (Default (initial debug_env :: string state))) =
        Some [(Stdout, DebugLevel)]"
proof -
  have a: "\<not> once_done (initial no_env :: string state)"
    and b: "\<not> once_done (initial debug_env :: string state)"
    by (simp_all add: initial_def)
  have c: "environ (initial no_env :: string state) ''DEBUG'' = None"
    and d: "environ (initial debug_env :: string state) ''DEBUG'' = Some ''true''"
    by (simp_all add: initial_def no_env_def debug_env_def)
  from Default_level_from_DEBUG [OF a] Default_level_from_DEBUG [OF b] a b c d
  show ?thesis by (simp add: initial_def no_env_def debug_env_def)
qed

text \<open>
  C7. \<open>Default\<close> initializes exactly once. The first call, the one that finds \<open>once\<close> not
  done, runs the body: it builds a new logger, puts it in \<open>Logger\<close> and its sugared form in
  \<open>Sugar\<close>, and sets the done flag. A second call changes nothing: \<open>Logger\<close> and \<open>Sugar\<close>
  are still the instance the first call built, and no further logger is built. The done
  flag stays set through every sequence of calls of the exported functions, so the body
  runs at most once and every later \<open>Default\<close> leaves the state as it is.
\<close>

theorem Default_exactly_once:
  "Default (Default s) = Default s
   \<and> once_done (Default s)
   \<and> Logger (Default (Default s)) = Logger (Default s)
   \<and> Sugar (Default (Default s)) = Sugar (Default s)
   \<and> Default (state_of (run r u cs (Default s))) = state_of (run r u cs (Default s))
   \<and> (\<not> once_done s \<longrightarrow> installs_new s (Default s))
   \<and> (\<not> once_done s \<longrightarrow> installs_new s (Default (Default s)))
   \<and> (\<not> once_done s \<longrightarrow> Default s = (Default_body s)\<lparr>once_done := True\<rparr>)
   \<and> (once_done s \<longrightarrow> Default s = s)
   \<and> installs_new (initial env) (Default (initial env))
   \<and> allocated (Default s) = (if once_done s then allocated s else Suc (allocated s))
   \<and> allocated (Default (Default s)) = allocated (Default s)"
proof (intro conjI impI)
  show d: "Default (Default s) = Default s"
    by (simp add: Default_when_done)
  show "once_done (Default s)" by simp
  show "Logger (Default (Default s)) = Logger (Default s)" using d by simp
  show "Sugar (Default (Default s)) = Sugar (Default s)" using d by simp
  have "once_done (state_of (run r u cs (Default s)))"
    by (rule run_once_done) simp
  then show "Default (state_of (run r u cs (Default s))) = state_of (run r u cs (Default s))"
    by (rule Default_when_done)
  show "installs_new s (Default s)" if "\<not> once_done s"
    using that by (rule installs_new_Default)
  show "installs_new s (Default (Default s))" if "\<not> once_done s"
    using that d by (simp add: installs_new_Default)
  show "Default s = (Default_body s)\<lparr>once_done := True\<rparr>" if "\<not> once_done s"
    using that by (simp add: Default_def)
  show "Default s = s" if "once_done s"
    using that by (rule Default_when_done)
  show "installs_new (initial env) (Default (initial env))"
    by (rule installs_new_Default) (simp add: initial_def)
  show "allocated (Default s) = (if once_done s then allocated s else Suc (allocated s))"
    by (simp add: Default_def Default_body_def Let_def)
  show "allocated (Default (Default s)) = allocated (Default s)"
    using d by simp
qed

text \<open>
  Witness for C7: on a fresh process the first \<open>Default\<close> builds logger number 0; after the
  second call logger number 0 is still installed and one logger has been built in all.
\<close>

theorem Default_exactly_once_witness:
  "\<not> once_done (initial debug_env :: string state)
   \<and> installs_new (initial debug_env :: string state) (Default (initial debug_env))
   \<and> installs_new (initial debug_env :: string state) (Default (Default (initial debug_env)))
   \<and> map_option ident (Logger (Default (Default (initial debug_env :: string state)))) = Some 0
   \<and> allocated (Default (Default (initial debug_env :: string state))) = 1
   \<and> once_done (Default (initial debug_env :: string state))
   \<and> Default (Default (initial debug_env :: string state)) = Default (initial debug_env)"
proof -
  let ?i = "initial debug_env :: string state"
  have n: "\<not> once_done ?i" and z: "allocated ?i = 0" by (simp_all add: initial_def)
  note t = Default_exactly_once [where s = ?i and cs = "[]" and env = debug_env]
  have 1: "installs_new ?i (Default ?i)" using t n by blast
  have 2: "installs_new ?i (Default (Default ?i))" using t n by blast
  have 3: "map_option ident (Logger (Default (Default ?i))) = Some 0"
    using 2 z by (simp add: installs_new_def split: option.splits)
  have 4: "allocated (Default (Default ?i)) = 1"
    using 2 z by (simp add: installs_new_def split: option.splits)
  have 5: "once_done (Default ?i)" using t by blast
  have 6: "Default (Default ?i) = Default ?i" using t by blast
  from n 1 2 3 4 5 6 show ?thesis by blast
qed

section \<open>Init\<close>

text \<open>
  C9. With \<open>rollingBy = RollingByDate\<close> the outcome of \<open>Init\<close> does not depend on
  \<open>maxSize\<close>: any two values give the same outcome, that of \<open>DateRolling\<close>, which does
  not take the parameter.
\<close>

theorem Init_by_date_ignores_maxSize:
  "Init r u filename logLevel maxSize1 maxBackups maxAge RollingByDate stdout s =
   Init r u filename logLevel maxSize2 maxBackups maxAge RollingByDate stdout s
   \<and> Init r u filename logLevel maxSize1 maxBackups maxAge RollingByDate stdout s =
       DateRolling r u filename logLevel maxBackups maxAge stdout s"
  by (simp add: Init_def RollingByDate_def RollingBySize_def)

text \<open>
  C10. \<open>Init\<close> with a \<open>rollingBy\<close> other than 0 and 1 returns normally with the state
  unchanged: no setup runs, nothing panics or exits, and \<open>Logger\<close> and \<open>Sugar\<close> are as
  before.
\<close>

theorem Init_other_mode_is_noop:
  assumes "rollingBy \<noteq> 0" and "rollingBy \<noteq> 1"
  shows "Init r u filename logLevel maxSize maxBackups maxAge rollingBy stdout s = Return s"
  using assms by (simp add: Init_def RollingByDate_def RollingBySize_def)

text \<open>
  Witness for C10: \<open>rollingBy = 2\<close>, with arguments that either setup would react to.
\<close>

theorem Init_other_mode_is_noop_witness:
  "(2 :: go_int) \<noteq> 0 \<and> (2 :: go_int) \<noteq> 1
   \<and> Init reject_stray_percent id ''app.log%'' ''verbose'' 1 3 10 2 [True]
        (initial no_env :: string state) = Return (initial no_env)"
proof -
  have a: "(2 :: go_int) \<noteq> 0" and b: "(2 :: go_int) \<noteq> 1" by simp_all
  from Init_other_mode_is_noop [OF a b] a b show ?thesis by simp
qed

section \<open>Failure of the rotation setup\<close>

text \<open>
  C4 (amended). When \<open>RotateLogs\<close> returns an error, \<open>DateRolling\<close>, and \<open>Init\<close> with
  \<open>RollingByDate\<close>, panic with that error at once: no error value is returned, the state
  is the one before the call (no logger is built, nothing is printed), and no later call
  of the caller runs. The panic is an ordinary one: a caller that runs the call under a
  deferred \<open>recover\<close> gets the error back as the recovered value and goes on.
\<close>

theorem DateRolling_failure_panics:
  assumes "RotateLogs reject filename (to_uint maxBackups) maxAge = Inl err"
  shows "DateRolling reject u filename logLevel maxBackups maxAge stdout s =
           Panic (SetupError err) s
       \<and> Init reject u filename logLevel maxSize maxBackups maxAge RollingByDate stdout s =
           Panic (SetupError err) s
       \<and> run reject u (CallDateRolling filename logLevel maxBackups maxAge stdout # cs) s =
           Panic (SetupError err) s
       \<and> with_recover (DateRolling reject u filename logLevel maxBackups maxAge stdout) s =
           (Some (SetupError err), Return s)"
proof -
  have d: "DateRolling reject u filename logLevel maxBackups maxAge stdout s =
           Panic (SetupError err) s"
    using assms by (simp add: DateRolling_def)
  then show ?thesis
    by (simp add: Init_def RollingByDate_def RollingBySize_def)
qed

lemma RotateLogs_stray_percent:
  "RotateLogs reject_stray_percent ''app.log%'' (to_uint 3) 10 =
     Inl ''stray % at the end of pattern''"
proof -
  have "RotateLogs_filename ''app.log%'' = ''app.%Y%m%d.log%''" by code_simp
  then show ?thesis
    by (simp add: RotateLogs_def rotatelogs_New_def reject_stray_percent_def)
qed

text \<open>
  Witness for C4: the path \<open>app.log%\<close> gives a pattern with a stray percent sign at its
  end, which the sample \<open>rotatelogs.New\<close> refuses.
\<close>

theorem DateRolling_failure_panics_witness:
  "RotateLogs reject_stray_percent ''app.log%'' (to_uint 3) 10 =
     Inl ''stray % at the end of pattern''
   \<and> DateRolling reject_stray_percent id ''app.log%'' ''verbose'' 3 10 [True]
        (initial no_env :: string state) =
      Panic (SetupError ''stray % at the end of pattern'') (initial no_env)
   \<and> Init reject_stray_percent id ''app.log%'' ''verbose'' 1 3 10 RollingByDate [True]
        (initial no_env :: string state) =
      Panic (SetupError ''stray % at the end of pattern'') (initial no_env)"
  using DateRolling_failure_panics [OF RotateLogs_stray_percent, of id "''verbose''" "[True]"
      "initial no_env :: string state" 1 "[]"] RotateLogs_stray_percent
  by simp

text \<open>
  Counterexample for C4 as stated: the failure is not an exit of the process that no
  caller can stop. A caller that recovers gets the error and returns normally.
\<close>

theorem DateRolling_panic_recovered_counterexample:
  "with_recover (DateRolling reject_stray_percent id ''app.log%'' ''info'' 3 10 [])
      (initial no_env :: string state) =
     (Some (SetupError ''stray % at the end of pattern''), Return (initial no_env))
   \<and> DateRolling reject_stray_percent id ''app.log%'' ''info'' 3 10 []
        (initial no_env :: string state) \<noteq> Exit (initial no_env)"
  using RotateLogs_stray_percent by (simp add: DateRolling_def)

section \<open>Logging before any explicit setup\<close>

text \<open>
  C8. In every state that a process reaches from its start by calls of the logging
  functions and of \<open>Default\<close> only, in particular at its start, each of the ten logging
  functions ends without a panic: it runs \<open>Default\<close> if \<open>Sugar\<close> is nil and then logs at
  its level through the default logger, whose only sink is standard output at INFO, or
  at DEBUG when \<open>DEBUG\<close> is set; the entry is written if that level admits it.
  Moreover no sequence of calls of the exported functions, from the start of a process,
  ends in a nil pointer dereference.
\<close>

theorem log_before_setup:
  fixes s :: "'v state"
  assumes "log_entry c = Some (lvl, msg)"
    and "list_all (\<lambda>k. \<not> is_setup k) cs"
    and "run r u cs (initial env) = Return s"
  shows "(\<forall>e t. exec r u c s \<noteq> Panic e t)
       \<and> exec r u c s = Sugar_log lvl msg (Default s)
       \<and> Sugar (state_of (exec r u c s)) = Sugar (Default (initial env :: 'v state))
       \<and> map_option (\<lambda>sg. sinks (base sg)) (Sugar (state_of (exec r u c s))) =
           Some [(Stdout, if Getenv env ''DEBUG'' = [] then InfoLevel else DebugLevel)]
       \<and> (\<exists>k. map_option (\<lambda>sg. cores (base sg)) (Sugar (state_of (exec r u c s))) = Some [k]
              \<and> written (state_of (exec r u c s)) =
                  written s @ (if Enabled k lvl then [(k, lvl, msg)] else []))
       \<and> (\<forall>t. run r u cs' (initial env :: 'v state) \<noteq> Panic NilPointerDereference t)"
proof -
  let ?d = "Default s"
  have b: "before_setup env s"
    using run_before_setup [OF before_setup_initial assms(2), of env r u] assms(3) by simp
  have e: "exec r u c s = Sugar_log lvl msg ?d"
    by (simp only: log_call_unfold [OF assms(1)] before_setup_ensure [OF b])
  have sg: "Sugar ?d = Sugar (Default (initial env :: 'v state))"
    by (rule before_setup_Default(3) [OF b])
  obtain k where k: "Sugar ?d = Some \<lparr>base = \<lparr>ident = 0, cores = [k], addCaller = True,
        callerSkip = 3\<rparr>\<rparr>"
      "syncer k = Stdout"
      "enab k = (if Getenv env ''DEBUG'' = [] then InfoLevel else DebugLevel)"
    using sg by (simp add: default_Sugar NewCore_def)
  have w: "written ?d = written s"
    by (simp add: Default_def Default_body_def Let_def)
  have st: "Sugar (state_of (exec r u c s)) = Sugar ?d"
    by (simp add: e Sugar_log_state)
  have 1: "\<forall>e t. exec r u c s \<noteq> Panic e t"
    using k(1) by (simp add: e Sugar_log_def Let_def)
  have 4: "map_option (\<lambda>sg. sinks (base sg)) (Sugar (state_of (exec r u c s))) =
           Some [(Stdout, if Getenv env ''DEBUG'' = [] then InfoLevel else DebugLevel)]"
    using k by (simp add: st sinks_def)
  have "map_option (\<lambda>sg. cores (base sg)) (Sugar (state_of (exec r u c s))) = Some [k]
        \<and> written (state_of (exec r u c s)) =
             written s @ (if Enabled k lvl then [(k, lvl, msg)] else [])"
    using k(1) w by (simp add: st) (simp add: e Sugar_log_def Let_def)
  then have 5: "\<exists>k. map_option (\<lambda>sg. cores (base sg)) (Sugar (state_of (exec r u c s))) = Some [k]
        \<and> written (state_of (exec r u c s)) =
             written s @ (if Enabled k lvl then [(k, lvl, msg)] else [])"
    by blast
  have 6: "\<forall>t. run r u cs' (initial env :: 'v state) \<noteq> Panic NilPointerDereference t"
    using run_no_nil [OF guarded_initial] by blast
  from 1 e st sg 4 5 6 show ?thesis by simp
qed

text \<open>
  Witness for C8: in an environment with \<open>DEBUG=true\<close>, \<open>Infof\<close> and then \<open>Debugf\<close>,
  with no setup before.
\<close>

theorem log_before_setup_witness:
  "log_entry (CallDebugf ''%v'' [''user'']) = Some (DebugLevel, Sprintf ''%v'' [''user''])
   \<and> list_all (\<lambda>k. \<not> is_setup k) [CallInfof ''%s'' [''hello world'']]
   \<and> run accept_all id [CallInfof ''%s'' [''hello world'']] (initial debug_env) =
        Return (state_of (run accept_all id [CallInfof ''%s'' [''hello world'']] (initial debug_env)))
   \<and> exec accept_all id (CallDebugf ''%v'' [''user''])
        (state_of (run accept_all id [CallInfof ''%s'' [''hello world'']] (initial debug_env))) =
      Sugar_log DebugLevel (Sprintf ''%v'' [''user''])
        (Default (state_of (run accept_all id [CallInfof ''%s'' [''hello world'']] (initial debug_env))))
   \<and> map_option (\<lambda>sg. sinks (base sg))
        (Sugar (state_of (exec accept_all id (CallDebugf ''%v'' [''user''])
          (state_of (run accept_all id [CallInfof ''%s'' [''hello world'']] (initial debug_env)))))) =
      Some [(Stdout, DebugLevel)]"
proof -
  define st :: "string state"
    where "st = state_of (run accept_all id [CallInfof ''%s'' [''hello world'']] (initial debug_env))"
  have a: "log_entry (CallDebugf ''%v'' [''user'']) = Some (DebugLevel, Sprintf ''%v'' [''user''])"
    by simp
  have b: "list_all (\<lambda>k. \<not> is_setup k) [CallInfof ''%s'' [''hello world''] :: string call]"
    by simp
  have c: "run accept_all id [CallInfof ''%s'' [''hello world'']] (initial debug_env) = Return st"
    unfolding st_def
    by (simp add: Infof_def Sugar_log_def initial_def Default_def Default_body_def Let_def)
  have g: "Getenv debug_env ''DEBUG'' \<noteq> []"
    by (simp add: Getenv_def debug_env_def)
  note t = log_before_setup [OF a b c, of "[]"]
  have 1: "exec accept_all id (CallDebugf ''%v'' [''user'']) st =
      Sugar_log DebugLevel (Sprintf ''%v'' [''user'']) (Default st)"
    using t by blast
  have "map_option (\<lambda>sg. sinks (base sg))
        (Sugar (state_of (exec accept_all id (CallDebugf ''%v'' [''user'']) st))) =
      Some [(Stdout, if Getenv debug_env ''DEBUG'' = [] then InfoLevel else DebugLevel)]"
    using t by blast
  then have 2: "map_option (\<lambda>sg. sinks (base sg))
        (Sugar (state_of (exec accept_all id (CallDebugf ''%v'' [''user'']) st))) =
      Some [(Stdout, DebugLevel)]"
    using g by simp
  show ?thesis
    unfolding st_def [symmetric] using a b c 1 2 by blast
qed

section \<open>The life cycle of the package logger\<close>

text \<open>
  C5 (amended). The package logger is not created at most once. Every \<open>SizeRolling\<close>,
  every \<open>DateRolling\<close> that returns, every \<open>Init\<close> with \<open>rollingBy\<close> 0 or 1 that returns,
  and every \<open>Default\<close> whose \<open>once\<close> body runs builds a new logger, numbered by the count
  of loggers built before, and puts it in \<open>Logger\<close> and its sugared form in \<open>Sugar\<close>.
  \<open>Init\<close> with another \<open>rollingBy\<close>, a \<open>DateRolling\<close> that panics and a \<open>Default\<close> that
  finds \<open>once\<close> done assign nothing. Once ACTIVE, the package stays ACTIVE through every
  sequence of calls of the exported functions. In every state reached from the start of
  a process \<open>Sugar\<close> is the sugared form of the logger in \<open>Logger\<close>, and a log call made
  then logs through the cores of the logger that is in \<open>Logger\<close> at the time of the call
  and leaves it in place.
\<close>

theorem logger_slot_lifecycle:
  "(ACTIVE s \<longrightarrow> ACTIVE (state_of (run r u cs s)))
   \<and> in_step (state_of (run r u cs (initial env)))
   \<and> (in_step s \<longrightarrow> in_step (state_of (run r u cs s)))
   \<and> (log_entry c = Some (lvl, msg) \<and> Sugar s = Some sg \<longrightarrow>
        exec r u c s = Sugar_log lvl msg s
        \<and> Sugar (state_of (exec r u c s)) = Some sg
        \<and> written (state_of (exec r u c s)) =
            written s @ map (\<lambda>k. (k, lvl, msg)) (filter (\<lambda>k. Enabled k lvl) (cores (base sg))))
   \<and> (log_entry c = Some (lvl, msg) \<and> in_step s \<and> Logger s = Some lg \<longrightarrow>
        exec r u c s = Sugar_log lvl msg s
        \<and> Logger (state_of (exec r u c s)) = Some lg
        \<and> written (state_of (exec r u c s)) =
            written s @ map (\<lambda>k. (k, lvl, msg)) (filter (\<lambda>k. Enabled k lvl) (cores lg)))
   \<and> installs_new s (state_of (SizeRolling u f l ms mb ma so s))
   \<and> map_option ident (Logger (state_of (SizeRolling u f l ms mb ma so s))) = Some (allocated s)
   \<and> allocated (state_of (SizeRolling u f l ms mb ma so s)) = Suc (allocated s)
   \<and> (DateRolling r u f l mb ma so s = Return s' \<longrightarrow>
        installs_new s s'
        \<and> map_option ident (Logger s') = Some (allocated s) \<and> allocated s' = Suc (allocated s))
   \<and> (DateRolling r u f l mb ma so s = Panic e s' \<longrightarrow> s' = s)
   \<and> (\<not> once_done s \<longrightarrow>
        installs_new s (Default s)
        \<and> map_option ident (Logger (Default s)) = Some (allocated s)
        \<and> allocated (Default s) = Suc (allocated s))
   \<and> (once_done s \<longrightarrow> Default s = s)
   \<and> ((rb = RollingBySize \<or> rb = RollingByDate) \<and>
        Init r u f l ms mb ma rb so s = Return s' \<longrightarrow> installs_new s s')
   \<and> Init r u f l ms mb ma RollingBySize so s = SizeRolling u f l ms mb ma so s
   \<and> Init r u f l ms mb ma RollingByDate so s = DateRolling r u f l mb ma so s
   \<and> (rb \<noteq> RollingBySize \<and> rb \<noteq> RollingByDate \<longrightarrow>
        Init r u f l ms mb ma rb so s = Return s)"
proof (intro conjI impI)
  show "ACTIVE (state_of (run r u cs s))" if "ACTIVE s"
    using that by (rule run_ACTIVE)
  show "in_step (state_of (run r u cs (initial env)))"
    by (rule run_in_step) (rule in_step_initial)
  show "in_step (state_of (run r u cs s))" if "in_step s"
    using that by (rule run_in_step)
  show "installs_new s (state_of (SizeRolling u f l ms mb ma so s))"
    by (rule installs_new_SizeRolling)
  show "map_option ident (Logger (state_of (SizeRolling u f l ms mb ma so s))) = Some (allocated s)"
    and "allocated (state_of (SizeRolling u f l ms mb ma so s)) = Suc (allocated s)"
    by (simp_all add: SizeRolling_Return)
  show "installs_new s s'" if "DateRolling r u f l mb ma so s = Return s'"
    using that by (rule installs_new_DateRolling)
  show "map_option ident (Logger s') = Some (allocated s)" and "allocated s' = Suc (allocated s)"
    if "DateRolling r u f l mb ma so s = Return s'"
    using that by (auto simp: DateRolling_cases split: option.splits)
  show "s' = s" if "DateRolling r u f l mb ma so s = Panic e s'"
    using that by (auto simp: DateRolling_cases split: option.splits)
  show "installs_new s (Default s)" if "\<not> once_done s"
    using that by (rule installs_new_Default)
  show "map_option ident (Logger (Default s)) = Some (allocated s)"
    and "allocated (Default s) = Suc (allocated s)" if "\<not> once_done s"
    using that by (simp_all add: Default_fresh)
  show "Default s = s" if "once_done s"
    using that by (rule Default_when_done)
  show "installs_new s s'"
    if "(rb = RollingBySize \<or> rb = RollingByDate) \<and> Init r u f l ms mb ma rb so s = Return s'"
  proof (cases "rb = RollingBySize")
    case True
    with that have "state_of (SizeRolling u f l ms mb ma so s) = s'"
      by (simp add: Init_def)
    then show ?thesis using installs_new_SizeRolling [of s u f l ms mb ma so] by simp
  next
    case False
    with that have "rb = RollingByDate" by simp
    with that False have "DateRolling r u f l mb ma so s = Return s'"
      by (auto simp: Init_def)
    then show ?thesis by (rule installs_new_DateRolling)
  qed
  show "Init r u f l ms mb ma RollingBySize so s = SizeRolling u f l ms mb ma so s"
    by (simp add: Init_def)
  show "Init r u f l ms mb ma RollingByDate so s = DateRolling r u f l mb ma so s"
    by (simp add: Init_def RollingByDate_def RollingBySize_def)
  show "Init r u f l ms mb ma rb so s = Return s"
    if "rb \<noteq> RollingBySize \<and> rb \<noteq> RollingByDate"
    using that by (simp add: Init_def)
next
  assume a: "log_entry c = Some (lvl, msg) \<and> Sugar s = Some sg"
  then have e: "exec r u c s = Sugar_log lvl msg s"
    by (simp add: log_call_unfold [of c lvl msg])
  then show "exec r u c s = Sugar_log lvl msg s" .
  show "Sugar (state_of (exec r u c s)) = Some sg"
    using a by (simp add: e Sugar_log_state)
  show "written (state_of (exec r u c s)) =
            written s @ map (\<lambda>k. (k, lvl, msg)) (filter (\<lambda>k. Enabled k lvl) (cores (base sg)))"
    using a by (simp add: e Sugar_log_def Let_def)
next
  assume a: "log_entry c = Some (lvl, msg) \<and> in_step s \<and> Logger s = Some lg"
  then have 1: "log_entry c = Some (lvl, msg)" and 2: "in_step s" and 3: "Logger s = Some lg"
    by simp_all
  show "exec r u c s = Sugar_log lvl msg s"
    by (rule log_call_through_Logger(1) [OF 1 2 3])
  show "Logger (state_of (exec r u c s)) = Some lg"
    by (rule log_call_through_Logger(2) [OF 1 2 3])
  show "written (state_of (exec r u c s)) =
            written s @ map (\<lambda>k. (k, lvl, msg)) (filter (\<lambda>k. Enabled k lvl) (cores lg))"
    by (rule log_call_through_Logger(3) [OF 1 2 3])
qed

text \<open>
  Witness for C5: \<open>SizeRolling\<close>, \<open>Init\<close> with \<open>rollingBy = 0\<close>, a \<open>DateRolling\<close> that
  returns and the first \<open>Default\<close> each install a new logger on a fresh process; a
  \<open>DateRolling\<close> that panics, \<open>Init\<close> with \<open>rollingBy = 2\<close> and a second \<open>Default\<close> change
  nothing; after \<open>SizeRolling\<close> the package is ACTIVE, stays so through \<open>Default\<close> and
  \<open>Info\<close>, and \<open>Info\<close> logs through the logger just installed.
\<close>

theorem logger_slot_lifecycle_witness:
  "ACTIVE (state_of (SizeRolling id ''a.log'' ''info'' 1 3 10 [] (initial no_env :: string state)))
   \<and> ACTIVE (state_of (run accept_all id [CallDefault, CallInfo [''x'']]
        (state_of (SizeRolling id ''a.log'' ''info'' 1 3 10 [] (initial no_env :: string state)))))
   \<and> \<not> once_done (initial no_env :: string state)
   \<and> installs_new (initial no_env :: string state) (Default (initial no_env))
   \<and> once_done (Default (initial no_env :: string state))
   \<and> Default (Default (initial no_env :: string state)) = Default (initial no_env)
   \<and> DateRolling accept_all id ''a.log'' ''info'' 3 10 [] (initial no_env :: string state) =
        Return (state_of (DateRolling accept_all id ''a.log'' ''info'' 3 10 [] (initial no_env)))
   \<and> installs_new (initial no_env :: string state)
        (state_of (DateRolling accept_all id ''a.log'' ''info'' 3 10 [] (initial no_env)))
   \<and> DateRolling reject_stray_percent id ''app.log%'' ''info'' 3 10 []
        (initial no_env :: string state) =
        Panic (SetupError ''stray % at the end of pattern'') (initial no_env)
   \<and> (0 :: go_int) = RollingBySize
   \<and> Init accept_all id ''a.log'' ''info'' 1 3 10 0 [] (initial no_env :: string state) =
        Return (state_of (SizeRolling id ''a.log'' ''info'' 1 3 10 [] (initial no_env)))
   \<and> installs_new (initial no_env :: string state)
        (state_of (SizeRolling id ''a.log'' ''info'' 1 3 10 [] (initial no_env)))
   \<and> (2 :: go_int) \<noteq> RollingBySize \<and> (2 :: go_int) \<noteq> RollingByDate
   \<and> Init accept_all id ''a.log'' ''info'' 1 3 10 2 [] (initial no_env :: string state) =
        Return (initial no_env)
   \<and> log_entry (CallInfo [''x'']) = Some (InfoLevel, Sprint [''x''])
   \<and> in_step (state_of (SizeRolling id ''a.log'' ''info'' 1 3 10 [] (initial no_env :: string state)))
   \<and> Logger (state_of (SizeRolling id ''a.log'' ''info'' 1 3 10 [] (initial no_env :: string state))) =
        Some (the (Logger (state_of (SizeRolling id ''a.log'' ''info'' 1 3 10 []
          (initial no_env :: string state)))))
   \<and> exec accept_all id (CallInfo [''x''])
        (state_of (SizeRolling id ''a.log'' ''info'' 1 3 10 [] (initial no_env :: string state))) =
        Sugar_log InfoLevel (Sprint [''x''])
          (state_of (SizeRolling id ''a.log'' ''info'' 1 3 10 [] (initial no_env)))"
proof -
  let ?i = "initial no_env :: string state"
  define sz where "sz = state_of (SizeRolling id ''a.log'' ''info'' 1 3 10 [] ?i)"
  define dr where "dr = state_of (DateRolling accept_all id ''a.log'' ''info'' 3 10 [] ?i)"
  have a: "ACTIVE sz" by (simp add: sz_def SizeRolling_Return)
  have n: "\<not> once_done ?i" by (simp add: initial_def)
  have d: "DateRolling accept_all id ''a.log'' ''info'' 3 10 [] ?i = Return dr"
    by (simp add: dr_def DateRolling_accept)
  have p: "DateRolling reject_stray_percent id ''app.log%'' ''info'' 3 10 [] ?i =
        Panic (SetupError ''stray % at the end of pattern'') ?i"
    using RotateLogs_stray_percent by (simp add: DateRolling_def)
  have z: "(0 :: go_int) = RollingBySize" by (simp add: RollingBySize_def)
  have two: "(2 :: go_int) \<noteq> RollingBySize \<and> (2 :: go_int) \<noteq> RollingByDate"
    by (simp add: RollingBySize_def RollingByDate_def)
  have l: "log_entry (CallInfo [''x'']) = Some (InfoLevel, Sprint [''x''])" by simp
  have ini: "Init accept_all id ''a.log'' ''info'' 1 3 10 0 [] ?i = Return sz"
    by (simp add: sz_def Init_def RollingBySize_def SizeRolling_Return)
  have lg: "Logger sz = Some (the (Logger sz))"
    by (simp add: sz_def SizeRolling_Return)
  note t1 = logger_slot_lifecycle [where s = sz and r = accept_all and u = id
      and cs = "[CallDefault, CallInfo [''x'']]" and c = "CallInfo [''x'']" and lvl = InfoLevel
      and msg = "Sprint [''x'']" and lg = "the (Logger sz)"]
  note t2 = logger_slot_lifecycle [where s = ?i and r = accept_all and u = id
      and f = "''a.log''" and l = "''info''" and ms = 1 and mb = 3 and ma = 10 and so = "[]"
      and s' = dr and rb = 2]
  note t3 = logger_slot_lifecycle [where s = ?i and r = accept_all and u = id
      and f = "''a.log''" and l = "''info''" and ms = 1 and mb = 3 and ma = 10 and so = "[]"
      and s' = sz and rb = 0]
  note t4 = logger_slot_lifecycle [where s = "Default ?i"]
  note t5 = logger_slot_lifecycle [where s = ?i and r = reject_stray_percent and u = id
      and f = "''app.log%''" and l = "''info''" and mb = 3 and ma = 10 and so = "[]"
      and e = "SetupError ''stray % at the end of pattern''" and s' = ?i]
  have 1: "ACTIVE (state_of (run accept_all id [CallDefault, CallInfo [''x'']] sz))"
    using t1 a by blast
  have 2: "installs_new ?i (Default ?i)" using t2 n by blast
  have 3: "once_done (Default ?i)" by simp
  have 4: "Default (Default ?i) = Default ?i" using t4 3 by blast
  have 5: "installs_new ?i dr" using t2 d by blast
  have 6: "installs_new ?i sz" using t3 ini z by blast
  have 7: "Init accept_all id ''a.log'' ''info'' 1 3 10 2 [] ?i = Return ?i"
    using t2 two by blast
  have 8: "in_step sz" using t3 [THEN conjunct2, THEN conjunct1, of "[CallSizeRolling ''a.log'' ''info'' 1 3 10 []]" no_env]
    by (simp add: sz_def SizeRolling_Return)
  have 9: "exec accept_all id (CallInfo [''x'']) sz = Sugar_log InfoLevel (Sprint [''x'']) sz"
    using t1 l 8 lg by blast
  have 10: "?i = ?i" using t5 p by blast
  show ?thesis
    unfolding sz_def [symmetric] dr_def [symmetric]
    using a 1 n 2 3 4 d 5 p z ini 6 two 7 l 8 lg 9 by blast
qed

text \<open>
  Counterexample for C5 as stated: \<open>Init\<close> runs first and builds logger 0; a \<open>Default\<close>
  after it builds logger 1, console only, and replaces the first. Two calls of \<open>Init\<close>
  build two loggers.
\<close>

theorem logger_created_twice_counterexample:
  "map_option ident (Logger (state_of (run accept_all id
       [CallInit ''a.log'' ''info'' 1 3 10 0 []] (initial no_env :: string state)))) = Some 0
   \<and> map_option ident (Logger (state_of (run accept_all id
       [CallInit ''a.log'' ''info'' 1 3 10 0 [], CallDefault] (initial no_env :: string state)))) = Some 1
   \<and> map_option sinks (Logger (state_of (run accept_all id
       [CallInit ''a.log'' ''info'' 1 3 10 0 [], CallDefault] (initial no_env :: string state)))) =
       Some [(Stdout, InfoLevel)]
   \<and> allocated (state_of (run accept_all id
       [CallInit ''a.log'' ''info'' 1 3 10 0 [], CallInit ''b.log'' ''debug'' 1 3 10 0 []]
       (initial no_env :: string state))) = 2"
  by (simp add: Init_def RollingBySize_def SizeRolling_Return Default_fresh initial_def
      sinks_def NewCore_def Getenv_def no_env_def)

section \<open>The test program\<close>

text \<open>
  \<open>test_log.go\<close> sets \<open>DEBUG\<close> and logs four times without any setup: all four entries
  reach standard output. Without \<open>DEBUG\<close> the two Debug entries are dropped.
\<close>

lemma test_main_run:
  "map (\<lambda>(k, lvl, m). (syncer k, lvl, m))
     (written (state_of (run accept_all id
        [CallInfof ''%s'' [''hello world''], CallErrorf ''%v'' [''5''],
         CallDebugf ''%v'' [''user''], CallDebugf ''%+v'' [''user'']]
        (initial debug_env)))) =
   [(Stdout, InfoLevel, Sprintf ''%s'' [''hello world'']),
    (Stdout, ErrorLevel, Sprintf ''%v'' [''5'']),
    (Stdout, DebugLevel, Sprintf ''%v'' [''user'']),
    (Stdout, DebugLevel, Sprintf ''%+v'' [''user''])]"
  by (simp add: Infof_def Errorf_def Debugf_def Sugar_log_def Default_fresh initial_def
      Getenv_def debug_env_def NewCore_def Enabled_def Let_def)

lemma test_main_run_without_DEBUG:
  "map (\<lambda>(k, lvl, m). (syncer k, lvl, m))
     (written (state_of (run accept_all id
        [CallInfof ''%s'' [''hello world''], CallErrorf ''%v'' [''5''],
         CallDebugf ''%v'' [''user''], CallDebugf ''%+v'' [''user'']]
        (initial no_env)))) =
   [(Stdout, InfoLevel, Sprintf ''%s'' [''hello world'']),
    (Stdout, ErrorLevel, Sprintf ''%v'' [''5''])]"
  by (simp add: Infof_def Errorf_def Debugf_def Sugar_log_def Default_fresh initial_def
      Getenv_def no_env_def NewCore_def Enabled_def Let_def)

end
